theory Spec2Isabelle
  imports Complex_Main
begin

section \<open>Data model (core/types.ts, core/constants.ts)\<close>

text \<open>
  Identifiers (\<open>NodeId\<close>, \<open>TrackId\<close>, \<open>WorkflowId\<close>, \<open>ResourceId\<close>) are JavaScript
  strings and are modelled as \<open>string\<close>. An optional field \<open>f?: T\<close> is a field of type
  \<open>T option\<close>, \<open>None\<close> standing for an absent or \<open>undefined\<close> property. Field names that several interfaces
  share (\<open>id\<close>, \<open>name\<close>, \<open>type\<close>, \<open>description\<close>, \<open>metadata\<close>, \<open>timeout\<close>) carry the
  interface as a prefix. The presentation fields \<open>position\<close> and \<open>size\<close> and the free-form
  \<open>metadata\<close> of nodes, tracks and dependencies are read by none of the functions below;
  they live in the extension slot of the records.
\<close>

datatype NodeType = TASK | DECISION | SYNC_POINT | START | END

datatype DependencyType = SEQUENTIAL | CONDITIONAL | SYNC

datatype ResourceType = CPU | MEMORY | GPU | CUSTOM

datatype ConditionOperator =
    EQUALS | NOT_EQUALS | GREATER_THAN | LESS_THAN
  | GREATER_THAN_OR_EQUALS | LESS_THAN_OR_EQUALS
  | CONTAINS | NOT_CONTAINS | STARTS_WITH | ENDS_WITH | REGEX

datatype ValidationErrorCode =
    CIRCULAR_DEPENDENCY | MISSING_START_NODE | MISSING_END_NODE | ORPHANED_NODE
  | INVALID_DEPENDENCY | INVALID_CONDITION | INVALID_SYNC_POINT
  | INVALID_RESOURCE_REQUIREMENT | DUPLICATE_NODE_ID | DUPLICATE_TRACK_ID
  | MISSING_REQUIRED_FIELD

text \<open>
  A JavaScript number is a double: a finite one, given by the rational it denotes, one of
  the two infinities, or \<open>NaN\<close>. The two zeros are one value, \<open>Finite 0\<close>: they are equal
  under \<open>===\<close>, both are falsy and both print as \<open>0\<close>.
\<close>

datatype jsnumber = Finite rat | PosInfinity | NegInfinity | NaN

text \<open>
  What a property declared \<open>number\<close> holds: a number, or the \<open>null\<close> that \<open>JSON.parse\<close> leaves
  where \<open>JSON.stringify\<close> has printed a number that is not finite.
\<close>

datatype numberOrNull = Number jsnumber | Null

text \<open>
  Values of type \<open>any\<close> (parameter maps, metadata, condition operands). An object is the
  list of its own enumerable properties in enumeration order.
\<close>

datatype jsvalue =
    JNull
  | JBool bool
  | JNum jsnumber
  | JStr string
  | JArr "jsvalue list"
  | JObj "(string \<times> jsvalue) list"

record ResourceRequirement =
  resourceType :: ResourceType
  amount :: numberOrNull
  resourceId :: "string option"

record Condition =
  leftOperand :: string
  operator :: ConditionOperator
  rightOperand :: jsvalue
  cond_metadata :: "(string \<times> jsvalue) list option"

record Dependency =
  sourceId :: string
  targetId :: string
  dep_type :: DependencyType
  condition :: "Condition option"
  isDefault :: "bool option"

record SyncPointConfig =
  requiredSources :: "string list"
  waitForAll :: "bool option"
  cfg_timeout :: "numberOrNull option"

text \<open>
  One record for every node variant: the objects are untyped at run time (the parser
  builds them as \<open>any\<close>), the variant is the \<open>type\<close> tag. \<open>trackName\<close> and
  \<open>defaultTargetName\<close> are the two properties that only the parser writes.
\<close>

record WorkflowNode =
  node_id :: string
  node_type :: NodeType
  node_name :: string
  node_description :: "string option"
  trackId :: "string option"
  trackName :: "string option"
  resourceRequirements :: "ResourceRequirement list option"
  taskType :: "string option"
  parameters :: "(string \<times> jsvalue) list option"
  timeout :: "numberOrNull option"
  retries :: "numberOrNull option"
  conditions :: "Condition list option"
  defaultTargetId :: "string option"
  defaultTargetName :: "string option"
  config :: "SyncPointConfig option"

record Track =
  track_id :: string
  track_name :: string
  track_description :: "string option"
  nodeIds :: "string list"

record Workflow =
  wf_id :: string
  wf_name :: string
  wf_description :: "string option"
  wf_version :: "string option"
  nodes :: "WorkflowNode list"
  dependencies :: "Dependency list"
  tracks :: "Track list"
  wf_metadata :: "(string \<times> jsvalue) list option"

record ValidationError =
  err_code :: ValidationErrorCode
  err_message :: string
  err_nodeId :: "string option"
  err_dependencyIds :: "string list option"
  err_trackId :: "string option"

record ValidationResult =
  valid :: bool
  errors :: "ValidationError list"

text \<open>
  An object literal that gives a node only its three mandatory properties.
\<close>

definition plainNode :: "string \<Rightarrow> NodeType \<Rightarrow> string \<Rightarrow> WorkflowNode" where
  "plainNode i ty n =
     \<lparr>node_id = i, node_type = ty, node_name = n, node_description = None, trackId = None,
      trackName = None, resourceRequirements = None, taskType = None, parameters = None,
      timeout = None, retries = None, conditions = None, defaultTargetId = None,
      defaultTargetName = None, config = None\<rparr>"

definition plainDependency :: "string \<Rightarrow> string \<Rightarrow> Dependency" where
  "plainDependency s t =
     \<lparr>sourceId = s, targetId = t, dep_type = SEQUENTIAL, condition = None, isDefault = None\<rparr>"

definition plainWorkflow ::
  "string \<Rightarrow> string \<Rightarrow> WorkflowNode list \<Rightarrow> Dependency list \<Rightarrow> Track list \<Rightarrow> Workflow" where
  "plainWorkflow i n ns ds ts =
     \<lparr>wf_id = i, wf_name = n, wf_description = None, wf_version = None, nodes = ns,
      dependencies = ds, tracks = ts, wf_metadata = None\<rparr>"

section \<open>WorkflowModel (core/models/workflow-model.ts)\<close>

text \<open>
  \<open>removeNode\<close> mutates the model in place and returns a boolean; the model returns the
  boolean together with the workflow after the call. The three statements of the source
  are the three bindings below, in order.
\<close>

definition removeNode :: "string \<Rightarrow> Workflow \<Rightarrow> bool \<times> Workflow" where
  "removeNode nodeId w =
     (let initialLength = length (nodes w);
          nodes' = filter (\<lambda>node. node_id node \<noteq> nodeId) (nodes w);
          dependencies' =
            filter (\<lambda>dep. sourceId dep \<noteq> nodeId \<and> targetId dep \<noteq> nodeId) (dependencies w);
          tracks' =
            map (\<lambda>track. track\<lparr>nodeIds := filter (\<lambda>i. i \<noteq> nodeId) (nodeIds track)\<rparr>) (tracks w)
      in (length nodes' \<noteq> initialLength,
          w\<lparr>nodes := nodes', dependencies := dependencies', tracks := tracks'\<rparr>))"

definition getStartNode :: "Workflow \<Rightarrow> WorkflowNode option" where
  "getStartNode w = find (\<lambda>node. node_type node = START) (nodes w)"

definition getEndNodes :: "Workflow \<Rightarrow> WorkflowNode list" where
  "getEndNodes w = filter (\<lambda>node. node_type node = END) (nodes w)"

definition hasValidStructure :: "Workflow \<Rightarrow> bool" where
  "hasValidStructure w =
     (if getStartNode w = None then False
      else if length (getEndNodes w) = 0 then False
      else True)"

section \<open>Reference integrity (the invariant of the data model)\<close>

text \<open>
  The part of the invariant that speaks of dependencies and tracks: every endpoint of a
  dependency and every member of a track is the id of a node of the workflow.
\<close>

definition nodeIdSet :: "Workflow \<Rightarrow> string set" where
  "nodeIdSet w = set (map node_id (nodes w))"

definition edgeTrackIntegrity :: "Workflow \<Rightarrow> bool" where
  "edgeTrackIntegrity w \<longleftrightarrow>
     (\<forall>dep \<in> set (dependencies w). sourceId dep \<in> nodeIdSet w \<and> targetId dep \<in> nodeIdSet w) \<and>
     (\<forall>track \<in> set (tracks w). set (nodeIds track) \<subseteq> nodeIdSet w)"

text \<open>
  The whole invariant adds the references that nodes hold: the default target of a
  decision and the required sources of a synchronization point.
\<close>

definition nodeRefIntegrity :: "Workflow \<Rightarrow> bool" where
  "nodeRefIntegrity w \<longleftrightarrow>
     (\<forall>node \<in> set (nodes w).
        (case defaultTargetId node of None \<Rightarrow> True | Some t \<Rightarrow> t \<in> nodeIdSet w) \<and>
        (case config node of None \<Rightarrow> True
         | Some c \<Rightarrow> set (requiredSources c) \<subseteq> nodeIdSet w))"

definition referenceIntegrity :: "Workflow \<Rightarrow> bool" where
  "referenceIntegrity w \<longleftrightarrow> edgeTrackIntegrity w \<and> nodeRefIntegrity w"

section \<open>Orphan check (validation/validation-service.ts)\<close>

definition orphanMessage :: "WorkflowNode \<Rightarrow> string" where
  "orphanMessage node =
     ''Node \"'' @ node_name node @ ''\" ('' @ node_id node @ '') is orphaned with no connections''"

definition checkOrphanedNodes :: "Workflow \<Rightarrow> ValidationError list" where
  "checkOrphanedNodes w =
     (let startNodeIds = map node_id (filter (\<lambda>node. node_type node = START) (nodes w));
          endNodeIds = map node_id (filter (\<lambda>node. node_type node = END) (nodes w));
          nonTerminalNodes =
            filter (\<lambda>node. node_id node \<notin> set startNodeIds \<and> node_id node \<notin> set endNodeIds)
              (nodes w)
      in concat (map (\<lambda>node.
           (let hasIncoming = (\<exists>dep \<in> set (dependencies w). targetId dep = node_id node);
                hasOutgoing = (\<exists>dep \<in> set (dependencies w). sourceId dep = node_id node)
            in if \<not> hasIncoming \<and> \<not> hasOutgoing
               then [\<lparr>err_code = ORPHANED_NODE, err_message = orphanMessage node,
                      err_nodeId = Some (node_id node), err_dependencyIds = None,
                      err_trackId = None\<rparr>]
               else [])) nonTerminalNodes))"

text \<open>
  The nodes that the orphan check is meant to flag: not typed start or end, and no
  dependency of any type enters or leaves them.
\<close>

definition orphanCandidate :: "Workflow \<Rightarrow> WorkflowNode \<Rightarrow> bool" where
  "orphanCandidate w node \<longleftrightarrow>
     node_type node \<noteq> START \<and> node_type node \<noteq> END \<and>
     \<not> (\<exists>dep \<in> set (dependencies w). targetId dep = node_id node) \<and>
     \<not> (\<exists>dep \<in> set (dependencies w). sourceId dep = node_id node)"

section \<open>Cycle detection (validation/validators/circular-dependency-validator.ts)\<close>

text \<open>
  \<open>Array.prototype.findIndex\<close> gives \<open>-1\<close> when no element matches, and
  \<open>Array.prototype.slice\<close> counts a negative start from the end of the array.
\<close>

definition findIndex :: "('a \<Rightarrow> bool) \<Rightarrow> 'a list \<Rightarrow> int" where
  "findIndex P xs = (if \<exists>x \<in> set xs. P x then int (length (takeWhile (\<lambda>x. \<not> P x) xs)) else - 1)"

definition slice :: "int \<Rightarrow> 'a list \<Rightarrow> 'a list" where
  "slice start xs =
     (if start < 0 then drop (nat (max (int (length xs) + start) 0)) xs
      else drop (nat start) xs)"

text \<open>\<open>Array.prototype.join\<close>.\<close>

fun join :: "string \<Rightarrow> string list \<Rightarrow> string" where
  "join sep [] = []"
| "join sep [x] = x"
| "join sep (x # y # ys) = x @ sep @ join sep (y # ys)"

text \<open>The error that \<open>dfs\<close> pushes for the cycle it has found.\<close>

definition cycleError :: "string list \<Rightarrow> ValidationError" where
  "cycleError cycle =
     \<lparr>err_code = CIRCULAR_DEPENDENCY,
      err_message = ''Circular dependency detected: '' @ join '' -> '' cycle,
      err_nodeId = None,
      err_dependencyIds =
        Some (map (\<lambda>index. cycle ! index @ ''->'' @ cycle ! ((index + 1) mod length cycle))
                [0 ..< length cycle]),
      err_trackId = None\<rparr>"

text \<open>
  The closure \<open>dfs\<close> shares three mutable variables with \<open>validate\<close>: the error list
  and the sets \<open>visited\<close> and \<open>recursionStack\<close>. They are the state that the model passes
  along. \<open>dfs\<close> is recursive through the loop over the outgoing dependencies
  (\<open>dfsEdges\<close>); the recursion depth is bounded by a counter, and \<open>None\<close> is the result of
  a call that would exceed it. \<open>dfs_total\<close> below shows that the bound that \<open>validate\<close>
  starts with is never reached.
\<close>

record DfsState =
  dfs_errors :: "ValidationError list"
  visited :: "string set"
  recursionStack :: "string set"

fun dfs :: "Dependency list \<Rightarrow> nat \<Rightarrow> string \<Rightarrow> string list \<Rightarrow> DfsState \<Rightarrow> (bool \<times> DfsState) option"
  and dfsEdges ::
    "Dependency list \<Rightarrow> nat \<Rightarrow> string list \<Rightarrow> Dependency list \<Rightarrow> DfsState \<Rightarrow> (bool \<times> DfsState) option"
where
  "dfs deps 0 nodeId path st = None"
| "dfs deps (Suc fuel) nodeId path st =
     (if nodeId \<in> recursionStack st then
        (let cycleStartIndex = findIndex (\<lambda>i. i = nodeId) path;
             cycle = slice cycleStartIndex path @ [nodeId]
         in Some (True, st\<lparr>dfs_errors := dfs_errors st @ [cycleError cycle]\<rparr>))
      else if nodeId \<in> visited st then Some (False, st)
      else
        (let st1 = st\<lparr>visited := insert nodeId (visited st),
                       recursionStack := insert nodeId (recursionStack st)\<rparr>;
             path1 = path @ [nodeId];
             outgoingDependencies = filter (\<lambda>dep. sourceId dep = nodeId) deps
         in case dfsEdges deps fuel path1 outgoingDependencies st1 of
              None \<Rightarrow> None
            | Some (True, st2) \<Rightarrow> Some (True, st2)
            | Some (False, st2) \<Rightarrow>
                Some (False, st2\<lparr>recursionStack := recursionStack st2 - {nodeId}\<rparr>)))"
| "dfsEdges deps fuel path [] st = Some (False, st)"
| "dfsEdges deps fuel path (dep # rest) st =
     (case dfs deps fuel (targetId dep) path st of
        None \<Rightarrow> None
      | Some (True, st') \<Rightarrow> Some (True, st')
      | Some (False, st') \<Rightarrow> dfsEdges deps fuel path rest st')"

text \<open>The loop of \<open>validate\<close> over the nodes of the workflow.\<close>

fun dfsNodes :: "Dependency list \<Rightarrow> nat \<Rightarrow> WorkflowNode list \<Rightarrow> DfsState \<Rightarrow> DfsState option" where
  "dfsNodes deps fuel [] st = Some st"
| "dfsNodes deps fuel (node # rest) st =
     (if node_id node \<notin> visited st then
        (case dfs deps fuel (node_id node) [] st of
           None \<Rightarrow> None
         | Some (found, st') \<Rightarrow> dfsNodes deps fuel rest st')
      else dfsNodes deps fuel rest st)"

text \<open>
  \<open>ValidationService.checkCircularDependencies\<close> and
  \<open>CircularDependencyValidator.validate\<close> have the same body.
\<close>

definition checkCircularDependencies :: "Workflow \<Rightarrow> ValidationError list option" where
  "checkCircularDependencies w =
     map_option dfs_errors
       (dfsNodes (dependencies w) (Suc (length (dependencies w))) (nodes w)
          \<lparr>dfs_errors = [], visited = {}, recursionStack = {}\<rparr>)"

definition CircularDependencyValidator_validate :: "Workflow \<Rightarrow> ValidationError list option" where
  "CircularDependencyValidator_validate w = checkCircularDependencies w"

text \<open>The dependency relation of a workflow, as a set of edges, and the ids that are the
  source of some dependency.\<close>

definition depEdges :: "Dependency list \<Rightarrow> (string \<times> string) set" where
  "depEdges deps = set (map (\<lambda>dep. (sourceId dep, targetId dep)) deps)"

definition depSources :: "Dependency list \<Rightarrow> string set" where
  "depSources deps = set (map sourceId deps)"

section \<open>ValidationService.validateWorkflow\<close>

text \<open>
  A registered validator maps a workflow to its list of errors (\<open>None\<close>: it does not
  return). \<open>validateWorkflow\<close> runs the validators in registration order and appends
  what they report.
\<close>

fun runValidators ::
  "(Workflow \<Rightarrow> ValidationError list option) list \<Rightarrow> Workflow \<Rightarrow> ValidationError list
     \<Rightarrow> ValidationError list option" where
  "runValidators [] w errs = Some errs"
| "runValidators (validator # rest) w errs =
     (case validator w of
        None \<Rightarrow> None
      | Some validationErrors \<Rightarrow> runValidators rest w (errs @ validationErrors))"

definition validateWorkflow ::
  "(Workflow \<Rightarrow> ValidationError list option) list \<Rightarrow> Workflow \<Rightarrow> ValidationResult option" where
  "validateWorkflow validators w =
     map_option (\<lambda>errs. \<lparr>valid = (length errs = 0), errors = errs\<rparr>)
       (runValidators validators w [])"

section \<open>Properties of removeNode\<close>

lemma length_filter_neq:
  "length (filter P xs) \<noteq> length xs \<longleftrightarrow> (\<exists>x \<in> set xs. \<not> P x)"
  by (metis filter_id_conv length_filter_less less_irrefl_nat)

text \<open>
  Claim C9, as the code has it. \<open>removeNode nodeId\<close> keeps exactly the nodes whose id
  differs from \<open>nodeId\<close>, keeps exactly the dependencies that have \<open>nodeId\<close> neither as
  source nor as target, takes \<open>nodeId\<close> out of the member list of every track and leaves
  every track otherwise as it was, leaves id, name, description, version and metadata of
  the workflow alone, and returns true iff some node had that id. It therefore preserves
  the dependency and track part of the reference-integrity invariant. (The references
  that nodes hold are not touched: see \<open>removeNode_dangling_default_target\<close>.)
\<close>

theorem removeNode_effect:
  assumes "removeNode nodeId w = (r, w')"
  shows "nodes w' = filter (\<lambda>node. node_id node \<noteq> nodeId) (nodes w)
    \<and> dependencies w' =
        filter (\<lambda>dep. sourceId dep \<noteq> nodeId \<and> targetId dep \<noteq> nodeId) (dependencies w)
    \<and> tracks w' = map (\<lambda>track. track\<lparr>nodeIds := removeAll nodeId (nodeIds track)\<rparr>) (tracks w)
    \<and> (\<forall>dep \<in> set (dependencies w'). sourceId dep \<noteq> nodeId \<and> targetId dep \<noteq> nodeId)
    \<and> (\<forall>track \<in> set (tracks w'). nodeId \<notin> set (nodeIds track))
    \<and> nodeId \<notin> nodeIdSet w'
    \<and> wf_id w' = wf_id w \<and> wf_name w' = wf_name w \<and> wf_description w' = wf_description w
    \<and> wf_version w' = wf_version w \<and> wf_metadata w' = wf_metadata w
    \<and> (r \<longleftrightarrow> nodeId \<in> nodeIdSet w)
    \<and> (edgeTrackIntegrity w \<longrightarrow> edgeTrackIntegrity w')"
proof -
  have w': "w' = w\<lparr>nodes := filter (\<lambda>node. node_id node \<noteq> nodeId) (nodes w),
      dependencies :=
        filter (\<lambda>dep. sourceId dep \<noteq> nodeId \<and> targetId dep \<noteq> nodeId) (dependencies w),
      tracks := map (\<lambda>track. track\<lparr>nodeIds := filter (\<lambda>i. i \<noteq> nodeId) (nodeIds track)\<rparr>)
        (tracks w)\<rparr>"
    and r: "r \<longleftrightarrow> length (filter (\<lambda>node. node_id node \<noteq> nodeId) (nodes w)) \<noteq> length (nodes w)"
    using assms by (auto simp: removeNode_def Let_def)
  have rm: "removeAll nodeId xs = filter (\<lambda>i. i \<noteq> nodeId) xs" for xs :: "string list"
    by (induction xs) auto
  have ids: "nodeIdSet w' = nodeIdSet w - {nodeId}"
    by (auto simp: w' nodeIdSet_def)
  have integ: "edgeTrackIntegrity w'" if "edgeTrackIntegrity w"
    using that unfolding edgeTrackIntegrity_def ids by (auto simp: w')
  show ?thesis
    using integ by (auto simp: w' r rm ids length_filter_neq nodeIdSet_def)
qed

theorem removeNode_effect_witness:
  "edgeTrackIntegrity
     (plainWorkflow ''w'' ''W'' [plainNode ''A'' START ''a'', plainNode ''X'' TASK ''x'']
        [plainDependency ''A'' ''X'']
        [\<lparr>track_id = ''t'', track_name = ''T'', track_description = None,
          nodeIds = [''A'', ''X'']\<rparr>])
   \<and> fst (removeNode ''X''
     (plainWorkflow ''w'' ''W'' [plainNode ''A'' START ''a'', plainNode ''X'' TASK ''x'']
        [plainDependency ''A'' ''X'']
        [\<lparr>track_id = ''t'', track_name = ''T'', track_description = None,
          nodeIds = [''A'', ''X'']\<rparr>]))
   \<and> edgeTrackIntegrity (snd (removeNode ''X''
     (plainWorkflow ''w'' ''W'' [plainNode ''A'' START ''a'', plainNode ''X'' TASK ''x'']
        [plainDependency ''A'' ''X'']
        [\<lparr>track_id = ''t'', track_name = ''T'', track_description = None,
          nodeIds = [''A'', ''X'']\<rparr>])))"
proof -
  let ?w = "plainWorkflow ''w'' ''W'' [plainNode ''A'' START ''a'', plainNode ''X'' TASK ''x'']
        [plainDependency ''A'' ''X'']
        [\<lparr>track_id = ''t'', track_name = ''T'', track_description = None,
          nodeIds = [''A'', ''X'']\<rparr>]"
  have call: "removeNode ''X'' ?w = (fst (removeNode ''X'' ?w), snd (removeNode ''X'' ?w))"
    by simp
  have pre: "edgeTrackIntegrity ?w"
    by (simp add: edgeTrackIntegrity_def nodeIdSet_def plainWorkflow_def plainNode_def
        plainDependency_def)
  have present: "''X'' \<in> nodeIdSet ?w"
    by (simp add: nodeIdSet_def plainWorkflow_def plainNode_def)
  from removeNode_effect[OF call] pre present show ?thesis
    by blast
qed

text \<open>
  The claim as written lets \<open>removeNode\<close> preserve the whole reference-integrity
  invariant. A decision node whose default target is the removed node keeps that target:
  the workflow below satisfies the invariant before the call and not after it.
\<close>

theorem removeNode_dangling_default_target:
  "referenceIntegrity
     (plainWorkflow ''w'' ''W''
        [(plainNode ''D'' DECISION ''Check'')\<lparr>defaultTargetId := Some ''X''\<rparr>,
         plainNode ''X'' TASK ''Fallback''] [] [])
   \<and> \<not> referenceIntegrity (snd (removeNode ''X''
     (plainWorkflow ''w'' ''W''
        [(plainNode ''D'' DECISION ''Check'')\<lparr>defaultTargetId := Some ''X''\<rparr>,
         plainNode ''X'' TASK ''Fallback''] [] [])))"
  by (simp add: referenceIntegrity_def edgeTrackIntegrity_def nodeRefIntegrity_def nodeIdSet_def
      removeNode_def plainWorkflow_def plainNode_def)

section \<open>Properties of the orphan check\<close>

lemma concat_map_if_singleton:
  "concat (map (\<lambda>x. if P x then [g x] else []) xs) = map g (filter P xs)"
  by (induction xs) auto

lemma checkOrphanedNodes_eq:
  "checkOrphanedNodes w =
     map (\<lambda>node. \<lparr>err_code = ORPHANED_NODE, err_message = orphanMessage node,
                   err_nodeId = Some (node_id node), err_dependencyIds = None,
                   err_trackId = None\<rparr>)
       (filter (\<lambda>node.
           node_id node \<notin> node_id ` {n \<in> set (nodes w). node_type n = START} \<and>
           node_id node \<notin> node_id ` {n \<in> set (nodes w). node_type n = END} \<and>
           \<not> (\<exists>dep \<in> set (dependencies w). targetId dep = node_id node) \<and>
           \<not> (\<exists>dep \<in> set (dependencies w). sourceId dep = node_id node)) (nodes w))"
  unfolding checkOrphanedNodes_def Let_def concat_map_if_singleton filter_filter
  by (rule arg_cong[where f="map _"], rule filter_cong) auto

text \<open>
  Claim C6, as the code has it. In a workflow whose node ids are pairwise distinct, the
  orphan check reports, in node order, exactly the nodes that are typed neither start nor
  end and that no dependency enters or leaves; every report carries the code
  \<open>orphaned_node\<close>; and no start node is reported.
\<close>

theorem checkOrphanedNodes_distinct_ids:
  assumes "distinct (map node_id (nodes w))"
  shows "map err_nodeId (checkOrphanedNodes w) =
           map (\<lambda>node. Some (node_id node)) (filter (orphanCandidate w) (nodes w))
       \<and> list_all (\<lambda>e. err_code e = ORPHANED_NODE) (checkOrphanedNodes w)
       \<and> list_all (\<lambda>node. node_type node = START \<longrightarrow>
            Some (node_id node) \<notin> set (map err_nodeId (checkOrphanedNodes w))) (nodes w)"
proof -
  have inj: "inj_on node_id (set (nodes w))"
    using assms by (simp add: distinct_map)
  have ty: "node_id n \<in> node_id ` {m \<in> set (nodes w). node_type m = t} \<longleftrightarrow> node_type n = t"
    if "n \<in> set (nodes w)" for n t
    using that inj by (auto dest: inj_onD)
  have flt: "filter (\<lambda>node.
           node_id node \<notin> node_id ` {n \<in> set (nodes w). node_type n = START} \<and>
           node_id node \<notin> node_id ` {n \<in> set (nodes w). node_type n = END} \<and>
           \<not> (\<exists>dep \<in> set (dependencies w). targetId dep = node_id node) \<and>
           \<not> (\<exists>dep \<in> set (dependencies w). sourceId dep = node_id node)) (nodes w)
     = filter (orphanCandidate w) (nodes w)"
    by (rule filter_cong) (auto simp: ty orphanCandidate_def)
  have ids: "map err_nodeId (checkOrphanedNodes w) =
           map (\<lambda>node. Some (node_id node)) (filter (orphanCandidate w) (nodes w))"
    unfolding checkOrphanedNodes_eq flt by (simp add: comp_def)
  have codes: "list_all (\<lambda>e. err_code e = ORPHANED_NODE) (checkOrphanedNodes w)"
    by (simp add: checkOrphanedNodes_eq list_all_iff)
  have starts: "list_all (\<lambda>node. node_type node = START \<longrightarrow>
            Some (node_id node) \<notin> set (map err_nodeId (checkOrphanedNodes w))) (nodes w)"
    unfolding ids list_all_iff using inj by (auto simp: orphanCandidate_def dest: inj_onD)
  show ?thesis using ids codes starts by blast
qed

theorem checkOrphanedNodes_distinct_ids_witness:
  "distinct (map node_id (nodes
      (plainWorkflow ''w'' ''W'' [plainNode ''s'' START ''S'', plainNode ''t'' TASK ''T'',
         plainNode ''u'' TASK ''U'', plainNode ''e'' END ''E'']
         [plainDependency ''s'' ''u''] [])))
   \<and> map err_nodeId (checkOrphanedNodes
      (plainWorkflow ''w'' ''W'' [plainNode ''s'' START ''S'', plainNode ''t'' TASK ''T'',
         plainNode ''u'' TASK ''U'', plainNode ''e'' END ''E'']
         [plainDependency ''s'' ''u''] [])) = [Some ''t'']"
proof -
  let ?w = "plainWorkflow ''w'' ''W'' [plainNode ''s'' START ''S'', plainNode ''t'' TASK ''T'',
         plainNode ''u'' TASK ''U'', plainNode ''e'' END ''E'']
         [plainDependency ''s'' ''u''] []"
  have d: "distinct (map node_id (nodes ?w))"
    by (simp add: plainWorkflow_def plainNode_def)
  from checkOrphanedNodes_distinct_ids[OF d] d show ?thesis
    by (simp add: orphanCandidate_def plainWorkflow_def plainNode_def plainDependency_def)
qed

text \<open>
  Without distinct ids the claim fails: a task that shares its id with a start node is
  typed neither start nor end and touches no dependency, and the check, which removes
  start and end nodes by id, does not report it.
\<close>

theorem checkOrphanedNodes_shared_id:
  "map err_nodeId (checkOrphanedNodes
      (plainWorkflow ''w'' ''W'' [plainNode ''x'' START ''S'', plainNode ''x'' TASK ''T''] [] []))
   \<noteq> map (\<lambda>node. Some (node_id node))
       (filter (orphanCandidate
          (plainWorkflow ''w'' ''W'' [plainNode ''x'' START ''S'', plainNode ''x'' TASK ''T''] [] []))
          (nodes (plainWorkflow ''w'' ''W''
             [plainNode ''x'' START ''S'', plainNode ''x'' TASK ''T''] [] [])))"
  by (simp add: checkOrphanedNodes_def orphanCandidate_def plainWorkflow_def plainNode_def)

section \<open>Properties of cycle detection\<close>

text \<open>
  A call of \<open>dfs\<close> only adds to \<open>visited\<close>. Every call that goes past the two membership
  tests marks a node that was not visited, and only a node that is the source of a
  dependency leads to further calls: with more fuel than there are unvisited sources the
  bound is not reached.
\<close>

lemma dfs_visited_mono:
  "dfs deps fuel nodeId path st = Some (b, st') \<Longrightarrow> visited st \<subseteq> visited st'"
  "dfsEdges deps fuel path out st = Some (b, st') \<Longrightarrow> visited st \<subseteq> visited st'"
proof (induction deps fuel nodeId path st and deps fuel path out st arbitrary: b st' and b st'
    rule: dfs_dfsEdges.induct)
  case (1 deps nodeId path st)
  then show ?case by simp
next
  case (2 deps fuel nodeId path st)
  show ?case
  proof (cases "nodeId \<in> recursionStack st \<or> nodeId \<in> visited st")
    case True
    with "2.prems" show ?thesis by (auto simp: Let_def split: if_splits)
  next
    case False
    let ?st1 = "st\<lparr>visited := insert nodeId (visited st),
                       recursionStack := insert nodeId (recursionStack st)\<rparr>"
    let ?out = "filter (\<lambda>dep. sourceId dep = nodeId) deps"
    from False "2.prems" obtain b2 st2 where
      loop: "dfsEdges deps fuel (path @ [nodeId]) ?out ?st1 = Some (b2, st2)"
      and st': "visited st' = visited st2"
      by (auto simp: Let_def split: option.splits bool.splits)
    from "2.IH"[OF _ _ refl refl refl loop] False have "visited ?st1 \<subseteq> visited st2" by simp
    with st' show ?thesis by auto
  qed
next
  case (3 deps fuel path st)
  then show ?case by simp
next
  case (4 deps fuel path dep rest st)
  from "4.prems" obtain b1 st1 where
    first: "dfs deps fuel (targetId dep) path st = Some (b1, st1)"
    by (auto split: option.splits)
  from "4.IH"(1)[OF first] have m1: "visited st \<subseteq> visited st1" .
  show ?case
  proof (cases b1)
    case True
    with first "4.prems" have "st' = st1" by simp
    with m1 show ?thesis by simp
  next
    case False
    with first "4.prems" have rest: "dfsEdges deps fuel path rest st1 = Some (b, st')" by simp
    from "4.IH"(2)[OF first _ _ rest] False have "visited st1 \<subseteq> visited st'" by simp
    with m1 show ?thesis by blast
  qed
qed


lemma card_depSources_le: "card (depSources deps - V) \<le> length deps"
proof -
  have "card (depSources deps - V) \<le> card (depSources deps)"
    by (simp add: depSources_def card_mono)
  also have "\<dots> \<le> length deps"
    unfolding depSources_def by (metis card_length length_map)
  finally show ?thesis .
qed

lemma dfsEdges_enough_fuel:
  assumes dfs_ok: "\<And>nodeId path st. card (depSources deps - visited st) < fuel
             \<Longrightarrow> dfs deps fuel nodeId path st \<noteq> None"
    and "card (depSources deps - visited st) < fuel"
  shows "dfsEdges deps fuel path out st \<noteq> None"
  using assms(2)
proof (induction out arbitrary: st)
  case Nil
  then show ?case by simp
next
  case (Cons dep rest)
  from dfs_ok[OF Cons.prems] obtain b1 st1 where
    first: "dfs deps fuel (targetId dep) path st = Some (b1, st1)" by fastforce
  from dfs_visited_mono(1)[OF first]
  have "depSources deps - visited st1 \<subseteq> depSources deps - visited st" by blast
  then have "card (depSources deps - visited st1) \<le> card (depSources deps - visited st)"
    by (intro card_mono) (simp_all add: depSources_def)
  with Cons.prems have "card (depSources deps - visited st1) < fuel" by simp
  from Cons.IH[OF this] first show ?case by (cases b1) simp_all
qed

lemma dfs_enough_fuel:
  "card (depSources deps - visited st) < fuel \<Longrightarrow> dfs deps fuel nodeId path st \<noteq> None"
proof (induction fuel arbitrary: nodeId path st)
  case 0
  then show ?case by simp
next
  case (Suc fuel)
  show ?case
  proof (cases "nodeId \<in> recursionStack st \<or> nodeId \<in> visited st")
    case True
    then show ?thesis by (auto simp: Let_def)
  next
    case False
    let ?st1 = "st\<lparr>visited := insert nodeId (visited st),
                       recursionStack := insert nodeId (recursionStack st)\<rparr>"
    let ?out = "filter (\<lambda>dep. sourceId dep = nodeId) deps"
    have loop: "dfsEdges deps fuel (path @ [nodeId]) ?out ?st1 \<noteq> None"
    proof (cases "?out = []")
      case True
      then show ?thesis by simp
    next
      case nonempty: False
      then obtain dep where "dep \<in> set deps" "sourceId dep = nodeId"
        by (metis (mono_tags, lifting) filter_False)
      then have src: "nodeId \<in> depSources deps" by (auto simp: depSources_def)
      have fin: "finite (depSources deps - visited st)" by (simp add: depSources_def)
      have "depSources deps - visited ?st1 = (depSources deps - visited st) - {nodeId}" by auto
      moreover have "nodeId \<in> depSources deps - visited st" using src False by simp
      ultimately have "card (depSources deps - visited ?st1) < card (depSources deps - visited st)"
        using fin by (metis card_Diff1_less)
      with Suc.prems have c: "card (depSources deps - visited ?st1) < fuel" by simp
      show ?thesis by (rule dfsEdges_enough_fuel[OF Suc.IH c])
    qed
    with False show ?thesis by (auto simp: Let_def split: option.splits bool.splits)
  qed
qed

lemma dfsNodes_enough_fuel:
  "length deps < fuel \<Longrightarrow> dfsNodes deps fuel ns st \<noteq> None"
proof (induction ns arbitrary: st)
  case Nil
  then show ?case by simp
next
  case (Cons node rest)
  have "card (depSources deps - visited st) < fuel"
    using card_depSources_le[of deps "visited st"] Cons.prems by simp
  from dfs_enough_fuel[OF this, of "node_id node" "[]"] obtain b1 st1 where
    "dfs deps fuel (node_id node) [] st = Some (b1, st1)" by fastforce
  with Cons.IH[OF Cons.prems] show ?case by simp
qed

text \<open>The cycle check returns on every workflow.\<close>

lemma dfs_total: "\<exists>errs. checkCircularDependencies w = Some errs"
  using dfsNodes_enough_fuel[of "dependencies w" "Suc (length (dependencies w))" "nodes w"
      "\<lparr>dfs_errors = [], visited = {}, recursionStack = {}\<rparr>"]
  by (auto simp: checkCircularDependencies_def)

text \<open>
  On an acyclic dependency relation no call finds its node on the recursion stack,
  provided every node on the stack reaches the node of the call: the check reports
  nothing and leaves the stack as it found it.
\<close>

lemma dfs_acyclic:
  "acyclic (depEdges deps) \<Longrightarrow> \<forall>r \<in> recursionStack st. (r, nodeId) \<in> (depEdges deps)\<^sup>+
     \<Longrightarrow> dfs deps fuel nodeId path st = Some (b, st')
     \<Longrightarrow> \<not> b \<and> dfs_errors st' = dfs_errors st \<and> recursionStack st' = recursionStack st"
  "acyclic (depEdges deps)
     \<Longrightarrow> \<forall>dep \<in> set out. \<forall>r \<in> recursionStack st. (r, targetId dep) \<in> (depEdges deps)\<^sup>+
     \<Longrightarrow> dfsEdges deps fuel path out st = Some (b, st')
     \<Longrightarrow> \<not> b \<and> dfs_errors st' = dfs_errors st \<and> recursionStack st' = recursionStack st"
proof (induction deps fuel nodeId path st and deps fuel path out st arbitrary: b st' and b st'
    rule: dfs_dfsEdges.induct)
  case (1 deps nodeId path st)
  then show ?case by simp
next
  case (2 deps fuel nodeId path st)
  have notstack: "nodeId \<notin> recursionStack st"
  proof
    assume "nodeId \<in> recursionStack st"
    with "2.prems"(2) have "(nodeId, nodeId) \<in> (depEdges deps)\<^sup>+" by blast
    with "2.prems"(1) show False by (simp add: acyclic_def)
  qed
  show ?case
  proof (cases "nodeId \<in> visited st")
    case True
    with notstack "2.prems"(3) show ?thesis by simp
  next
    case False
    let ?st1 = "st\<lparr>visited := insert nodeId (visited st),
                       recursionStack := insert nodeId (recursionStack st)\<rparr>"
    let ?out = "filter (\<lambda>dep. sourceId dep = nodeId) deps"
    from False notstack "2.prems"(3) obtain b2 st2 where
      loop: "dfsEdges deps fuel (path @ [nodeId]) ?out ?st1 = Some (b2, st2)"
      and res: "b2 \<and> b \<and> st' = st2 \<or>
                \<not> b2 \<and> \<not> b \<and> st' = st2\<lparr>recursionStack := recursionStack st2 - {nodeId}\<rparr>"
      by (auto simp: Let_def split: option.splits bool.splits)
    have edges: "\<forall>dep \<in> set ?out. \<forall>r \<in> recursionStack ?st1. (r, targetId dep) \<in> (depEdges deps)\<^sup>+"
    proof (intro ballI)
      fix dep r
      assume d: "dep \<in> set ?out" and r: "r \<in> recursionStack ?st1"
      from d have e: "(nodeId, targetId dep) \<in> depEdges deps"
        by (force simp: depEdges_def)
      show "(r, targetId dep) \<in> (depEdges deps)\<^sup>+"
      proof (cases "r = nodeId")
        case True
        with e show ?thesis by blast
      next
        case False
        with r have "r \<in> recursionStack st" by simp
        with "2.prems"(2) have "(r, nodeId) \<in> (depEdges deps)\<^sup>+" by blast
        with e show ?thesis by (meson trancl.trancl_into_trancl)
      qed
    qed
    from "2.IH"[OF _ _ refl refl refl "2.prems"(1) edges loop] False notstack
    have "\<not> b2 \<and> dfs_errors st2 = dfs_errors ?st1 \<and> recursionStack st2 = recursionStack ?st1"
      by simp
    with res notstack show ?thesis by auto
  qed
next
  case (3 deps fuel path st)
  then show ?case by simp
next
  case (4 deps fuel path dep rest st)
  from "4.prems"(3) obtain b1 st1 where
    first: "dfs deps fuel (targetId dep) path st = Some (b1, st1)"
    by (auto split: option.splits)
  from "4.prems"(2) have inv1: "\<forall>r \<in> recursionStack st. (r, targetId dep) \<in> (depEdges deps)\<^sup>+"
    by simp
  from "4.IH"(1)[OF "4.prems"(1) inv1 first]
  have r1: "\<not> b1" "dfs_errors st1 = dfs_errors st" "recursionStack st1 = recursionStack st"
    by simp_all
  with first "4.prems"(3) have rest: "dfsEdges deps fuel path rest st1 = Some (b, st')" by simp
  from "4.prems"(2) r1 have inv2:
    "\<forall>dep \<in> set rest. \<forall>r \<in> recursionStack st1. (r, targetId dep) \<in> (depEdges deps)\<^sup>+"
    by simp
  from "4.IH"(2)[OF first _ _ "4.prems"(1) inv2 rest] r1 show ?case by simp
qed

lemma dfsNodes_acyclic:
  "acyclic (depEdges deps) \<Longrightarrow> recursionStack st = {}
     \<Longrightarrow> dfsNodes deps fuel ns st = Some st'
     \<Longrightarrow> dfs_errors st' = dfs_errors st \<and> recursionStack st' = {}"
proof (induction ns arbitrary: st)
  case Nil
  then show ?case by simp
next
  case (Cons node rest)
  show ?case
  proof (cases "node_id node \<in> visited st")
    case True
    with Cons show ?thesis by simp
  next
    case False
    with Cons.prems(3) obtain b1 st1 where
      first: "dfs deps fuel (node_id node) [] st = Some (b1, st1)"
      and rest: "dfsNodes deps fuel rest st1 = Some st'"
      by (auto split: option.splits)
    from dfs_acyclic(1)[OF Cons.prems(1) _ first] Cons.prems(2)
    have "dfs_errors st1 = dfs_errors st" "recursionStack st1 = {}" by simp_all
    with Cons.IH[OF Cons.prems(1) _ rest] show ?thesis by simp
  qed
qed

lemma checkCircularDependencies_acyclic:
  assumes "acyclic (depEdges (dependencies w))"
  shows "checkCircularDependencies w = Some []"
proof -
  obtain errs where e: "checkCircularDependencies w = Some errs" using dfs_total by blast
  then obtain st' where run: "dfsNodes (dependencies w) (Suc (length (dependencies w))) (nodes w)
          \<lparr>dfs_errors = [], visited = {}, recursionStack = {}\<rparr> = Some st'"
    and errs: "errs = dfs_errors st'"
    by (auto simp: checkCircularDependencies_def)
  from dfsNodes_acyclic[OF assms _ run] errs e show ?thesis by simp
qed


section \<open>Well-formedness\<close>

text \<open>
  \<open>hasValidStructure\<close> holds exactly when the workflow has a start-typed and an end-typed
  node. \<open>validateWorkflow\<close> with the cycle validator registered reports a workflow whose
  dependency relation has no cycle as valid, whatever its nodes are.
\<close>

lemma hasValidStructure_iff:
  "hasValidStructure w \<longleftrightarrow>
     (\<exists>node \<in> set (nodes w). node_type node = START) \<and>
     (\<exists>node \<in> set (nodes w). node_type node = END)"
proof -
  have start: "getStartNode w = None \<longleftrightarrow> (\<forall>node \<in> set (nodes w). node_type node \<noteq> START)"
    by (auto simp: getStartNode_def find_None_iff)
  have ends: "length (getEndNodes w) = 0 \<longleftrightarrow> (\<forall>node \<in> set (nodes w). node_type node \<noteq> END)"
    by (simp add: getEndNodes_def filter_empty_conv)
  show ?thesis
    unfolding hasValidStructure_def start ends by auto
qed

lemma validateWorkflow_acyclic:
  assumes "acyclic (depEdges (dependencies w))"
  shows "validateWorkflow [CircularDependencyValidator_validate] w
           = Some \<lparr>valid = True, errors = []\<rparr>"
  using checkCircularDependencies_acyclic[OF assms]
  by (simp add: validateWorkflow_def CircularDependencyValidator_validate_def)

text \<open>
  Claim C3: validation reports every workflow that has nodes but no start-typed node, or
  no end-typed node, as invalid, and reports a workflow with a start node, an end node and
  an acyclic path between them as valid.

  The report of validity is the result of \<open>validateWorkflow\<close>: the errors of the registered
  validators, and \<open>valid\<close> when there are none. The only validator is
  \<open>CircularDependencyValidator\<close>; nothing emits the error codes \<open>MISSING_START_NODE\<close> and
  \<open>MISSING_END_NODE\<close> that constants.ts declares, and nothing calls \<open>hasValidStructure\<close>,
  the one function that looks at the node types. So with no validator registered every
  workflow is reported valid, and with the cycle validator registered the workflow made of
  a single task, which has neither a start nor an end node and which \<open>hasValidStructure\<close>
  refuses, is reported valid as well.
\<close>

theorem validateWorkflow_accepts_missing_start_end:
  "validateWorkflow [] w = Some \<lparr>valid = True, errors = []\<rparr>
   \<and> validateWorkflow [CircularDependencyValidator_validate]
         (plainWorkflow ''w'' ''W'' [plainNode ''t'' TASK ''T''] [] [])
       = Some \<lparr>valid = True, errors = []\<rparr>
   \<and> \<not> hasValidStructure (plainWorkflow ''w'' ''W'' [plainNode ''t'' TASK ''T''] [] [])"
proof -
  have none: "validateWorkflow [] w = Some \<lparr>valid = True, errors = []\<rparr>"
    by (simp add: validateWorkflow_def)
  have cycles: "validateWorkflow [CircularDependencyValidator_validate]
         (plainWorkflow ''w'' ''W'' [plainNode ''t'' TASK ''T''] [] [])
       = Some \<lparr>valid = True, errors = []\<rparr>"
    by (rule validateWorkflow_acyclic) (simp add: plainWorkflow_def depEdges_def acyclic_def)
  have struct: "\<not> hasValidStructure (plainWorkflow ''w'' ''W'' [plainNode ''t'' TASK ''T''] [] [])"
    by (simp add: hasValidStructure_iff plainWorkflow_def plainNode_def)
  from none cycles struct show ?thesis by simp
qed

section \<open>The cycle A, B, C\<close>

text \<open>
  Claim C4, evaluated. On the workflow with nodes \<open>A\<close>, \<open>B\<close>, \<open>C\<close> and dependencies
  \<open>A\<rightarrow>B\<close>, \<open>B\<rightarrow>C\<close>, \<open>C\<rightarrow>A\<close> the validator reports one error. Its message
  lists \<open>A -> B -> C -> A\<close>. Its edge list has four entries: the three edges of the cycle
  and \<open>A->A\<close>, which is no dependency of the workflow (the cycle list already ends with the
  node it starts with, and the edge of the last element wraps around to the first).
\<close>

theorem circular_dependency_ABC:
  "CircularDependencyValidator_validate
     (plainWorkflow ''w'' ''W''
        [plainNode ''A'' TASK ''a'', plainNode ''B'' TASK ''b'', plainNode ''C'' TASK ''c'']
        [plainDependency ''A'' ''B'', plainDependency ''B'' ''C'', plainDependency ''C'' ''A''] [])
   = Some [\<lparr>err_code = CIRCULAR_DEPENDENCY,
      err_message = ''Circular dependency detected: A -> B -> C -> A'',
      err_nodeId = None,
      err_dependencyIds = Some [''A->B'', ''B->C'', ''C->A'', ''A->A''],
      err_trackId = None\<rparr>]"
  by (simp add: CircularDependencyValidator_validate_def checkCircularDependencies_def
      plainWorkflow_def plainNode_def plainDependency_def cycleError_def findIndex_def
      slice_def upt_rec)

section \<open>JavaScript objects used as maps\<close>

text \<open>
  \<open>obj[k] = v\<close> on an object created by \<open>{}\<close>. The key \<open>__proto__\<close> is the accessor
  inherited from \<open>Object.prototype\<close>: assigning to it creates no own property. An
  existing own property keeps its place, a new one is appended, except that keys that are
  array indices (canonical decimal numerals below \<open>2^32 - 1\<close>) are enumerated first, in
  ascending order.
\<close>

definition digitsValue :: "string \<Rightarrow> nat" where
  "digitsValue ds = foldl (\<lambda>n c. 10 * n + (of_char c - 48)) (0::nat) ds"

definition isDigit :: "char \<Rightarrow> bool" where
  "isDigit c \<longleftrightarrow> (48::nat) \<le> of_char c \<and> of_char c \<le> (57::nat)"

definition isArrayIndex :: "string \<Rightarrow> bool" where
  "isArrayIndex k \<longleftrightarrow>
     k \<noteq> [] \<and> list_all isDigit k \<and> (k = ''0'' \<or> hd k \<noteq> CHR ''0'') \<and>
     digitsValue k < 4294967295"

fun insertIndexed :: "string \<Rightarrow> 'v \<Rightarrow> (string \<times> 'v) list \<Rightarrow> (string \<times> 'v) list" where
  "insertIndexed k v [] = [(k, v)]"
| "insertIndexed k v ((k', v') # props) =
     (if isArrayIndex k' \<and> digitsValue k' < digitsValue k then (k', v') # insertIndexed k v props
      else (k, v) # (k', v') # props)"

definition objSet :: "string \<Rightarrow> 'v \<Rightarrow> (string \<times> 'v) list \<Rightarrow> (string \<times> 'v) list" where
  "objSet k v props =
     (if k = ''__proto__'' then props
      else if k \<in> set (map fst props) then map (\<lambda>(k', v'). if k' = k then (k', v) else (k', v')) props
      else if isArrayIndex k then insertIndexed k v props
      else props @ [(k, v)])"

section \<open>Lexer (dsl/grammar.ts, DslParser.tokenize)\<close>

text \<open>
  The token kinds of \<open>TokenType\<close>, with the prefix \<open>T_\<close> (some share their name with a
  node type). \<open>T_INHERITED\<close> is not a member of the enumeration: it stands for the value
  that the lookup \<open>KEYWORDS[value]\<close> finds on \<open>Object.prototype\<close> when \<open>value\<close> is the name
  of one of its members, which the lexer then stores as the kind of the token.
\<close>

datatype TokenType =
    T_WORKFLOW | T_TRACK | T_TASK | T_DECISION | T_SYNC | T_START | T_END
  | T_DEPENDENCIES | T_RESOURCES | T_PARAMETERS | T_CONDITION | T_THEN | T_WHEN
  | T_DEFAULT | T_DESCRIPTION | T_VERSION | T_TYPE | T_WAIT_FOR_ALL | T_TIMEOUT
  | T_STRING | T_NUMBER | T_BOOLEAN
  | T_LEFT_BRACE | T_RIGHT_BRACE | T_LEFT_PAREN | T_RIGHT_PAREN
  | T_LEFT_BRACKET | T_RIGHT_BRACKET | T_ARROW | T_COLON | T_COMMA
  | T_IDENTIFIER | T_COMMENT | T_WHITESPACE | T_EOF
  | T_INHERITED string

record Token =
  tok_type :: TokenType
  tok_value :: string
  tok_line :: int
  tok_column :: int

definition KEYWORDS :: "(string \<times> TokenType) list" where
  "KEYWORDS =
     [(''workflow'', T_WORKFLOW), (''track'', T_TRACK), (''task'', T_TASK),
      (''decision'', T_DECISION), (''sync'', T_SYNC), (''start'', T_START), (''end'', T_END),
      (''dependencies'', T_DEPENDENCIES), (''resources'', T_RESOURCES),
      (''parameters'', T_PARAMETERS), (''condition'', T_CONDITION), (''then'', T_THEN),
      (''when'', T_WHEN), (''default'', T_DEFAULT), (''description'', T_DESCRIPTION),
      (''version'', T_VERSION), (''type'', T_TYPE), (''wait_for_all'', T_WAIT_FOR_ALL),
      (''timeout'', T_TIMEOUT), (''true'', T_BOOLEAN), (''false'', T_BOOLEAN)]"

definition objectPrototypeMembers :: "string list" where
  "objectPrototypeMembers =
     [''constructor'', ''hasOwnProperty'', ''isPrototypeOf'', ''propertyIsEnumerable'',
      ''toLocaleString'', ''toString'', ''valueOf'', ''__proto__'', ''__defineGetter__'',
      ''__defineSetter__'', ''__lookupGetter__'', ''__lookupSetter__'']"

definition keywordOrIdentifier :: "string \<Rightarrow> TokenType" where
  "keywordOrIdentifier v =
     (case map_of KEYWORDS v of
        Some ty \<Rightarrow> ty
      | None \<Rightarrow> if v \<in> set objectPrototypeMembers then T_INHERITED v else T_IDENTIFIER)"

text \<open>
  What the lexer and the parser throw. \<open>UnexpectedCharacter c line column\<close> is the lexer's
  error; \<open>ParseError message line column\<close> is \<open>this.error(token, message)\<close>;
  \<open>InvalidConditionFormat\<close> and \<open>UnknownOperator\<close> are the two errors of
  \<open>parseCondition\<close>; \<open>TypeError\<close> is a property read on \<open>undefined\<close>.
\<close>

datatype Error =
    UnexpectedCharacter char int int
  | ParseError string int int
  | InvalidConditionFormat string
  | UnknownOperator string
  | TypeError

text \<open>
  The source text is a list of characters with codes below 256. \<open>isSpace\<close> is the regular
  expression \<open>\s\<close> on such characters.
\<close>

definition isSpace :: "char \<Rightarrow> bool" where
  "isSpace c \<longleftrightarrow> c \<in> {CHR 0x09, CHR 0x0A, CHR 0x0B, CHR 0x0C, CHR 0x0D, CHR 0x20, CHR 0xA0}"

definition isLetter :: "char \<Rightarrow> bool" where
  "isLetter c \<longleftrightarrow> (65::nat) \<le> of_char c \<and> of_char c \<le> (90::nat)
                 \<or> (97::nat) \<le> of_char c \<and> of_char c \<le> (122::nat)"

definition isIdentStart :: "char \<Rightarrow> bool" where
  "isIdentStart c \<longleftrightarrow> isLetter c \<or> c = CHR ''_''"

definition isIdentPart :: "char \<Rightarrow> bool" where
  "isIdentPart c \<longleftrightarrow> isLetter c \<or> isDigit c \<or> c = CHR ''_''"

definition isNumberPart :: "char \<Rightarrow> bool" where
  "isNumberPart c \<longleftrightarrow> isDigit c \<or> c = CHR ''.''"

definition symbolType :: "char \<Rightarrow> TokenType option" where
  "symbolType c =
     (if c = CHR ''{'' then Some T_LEFT_BRACE
      else if c = CHR ''}'' then Some T_RIGHT_BRACE
      else if c = CHR ''('' then Some T_LEFT_PAREN
      else if c = CHR '')'' then Some T_RIGHT_PAREN
      else if c = CHR ''['' then Some T_LEFT_BRACKET
      else if c = CHR '']'' then Some T_RIGHT_BRACKET
      else if c = CHR '':'' then Some T_COLON
      else if c = CHR '','' then Some T_COMMA
      else None)"

text \<open>
  \<open>startsWith2 a b s\<close>: the character at the cursor is \<open>a\<close> and \<open>charAt(current + 1)\<close> is
  \<open>b\<close>.
\<close>

definition startsWith2 :: "char \<Rightarrow> char \<Rightarrow> string \<Rightarrow> bool" where
  "startsWith2 a b s = (case s of x # y # _ \<Rightarrow> x = a \<and> y = b | _ \<Rightarrow> False)"

text \<open>
  The inner loops of the block comment and of the string literal. Each returns the
  characters it has consumed, the rest of the source, and the line and column counters as
  the loop leaves them.
\<close>

fun scanBlockComment :: "string \<Rightarrow> int \<Rightarrow> int \<Rightarrow> string \<times> string \<times> int \<times> int" where
  "scanBlockComment [] line col = ([], [], line, col)"
| "scanBlockComment (c # cs) line col =
     (if startsWith2 (CHR ''*'') (CHR ''/'') (c # cs) then ([], c # cs, line, col)
      else
        (case (if c = CHR 0x0A then scanBlockComment cs (line + 1) 1
               else scanBlockComment cs line (col + 1)) of
           (body, rest, line', col') \<Rightarrow> (c # body, rest, line', col')))"

fun scanString :: "string \<Rightarrow> int \<Rightarrow> int \<Rightarrow> string \<times> string \<times> int \<times> int" where
  "scanString [] line col = ([], [], line, col)"
| "scanString [c] line col =
     (if c = CHR 0x22 then ([], [c], line, col)
      else if c = CHR 0x0A then ([c], [], line + 1, 1)
      else ([c], [], line, col + 1))"
| "scanString (c # d # cs) line col =
     (if c = CHR 0x22 then ([], c # d # cs, line, col)
      else if c = CHR 0x5C then
        (case scanString cs line (col + 2) of
           (body, rest, line', col') \<Rightarrow> (c # d # body, rest, line', col'))
      else
        (case (if c = CHR 0x0A then scanString (d # cs) (line + 1) 1
               else scanString (d # cs) line (col + 1)) of
           (body, rest, line', col') \<Rightarrow> (c # body, rest, line', col')))"

lemma scanBlockComment_length:
  "scanBlockComment s line col = (body, rest, line', col') \<Longrightarrow> length rest \<le> length s"
  by (induction s line col arbitrary: body rest line' col' rule: scanBlockComment.induct)
     (auto split: if_splits prod.splits simp: le_SucI)

lemma scanString_length:
  "scanString s line col = (body, rest, line', col') \<Longrightarrow> length rest \<le> length s"
  by (induction s line col arbitrary: body rest line' col' rule: scanString.induct)
     (auto split: if_splits prod.splits simp: le_SucI)


lemma length_dropWhile_tl: "length (dropWhile P (tl cs)) < Suc (length cs)"
  using length_dropWhile_le[of P "tl cs"] by (cases cs) auto

lemma length_tl_rest: "length rest \<le> length cs \<Longrightarrow> length (tl rest) < Suc (length cs)"
  by (cases rest) auto

definition mkToken :: "TokenType \<Rightarrow> string \<Rightarrow> int \<Rightarrow> int \<Rightarrow> Token" where
  "mkToken ty v line col = \<lparr>tok_type = ty, tok_value = v, tok_line = line, tok_column = col\<rparr>"

text \<open>
  The main loop, on the rest of the source from the cursor on. The value of a string token
  is \<open>source.substring(start + 1, current - 1)\<close>: the consumed characters when the literal
  is closed; for an unterminated literal the cursor is at the end of the source, and the
  value is the consumed characters without the last one, or the opening quote itself when
  nothing was consumed (\<open>substring\<close> swaps its arguments when the first is larger).
\<close>

function tokenizeFrom :: "string \<Rightarrow> int \<Rightarrow> int \<Rightarrow> Token list \<Rightarrow> Error + Token list" where
  "tokenizeFrom [] line col toks = Inr (toks @ [mkToken T_EOF [] line col])"
| "tokenizeFrom (c # cs) line col toks =
     (if isSpace c then
        (if c = CHR 0x0A then tokenizeFrom cs (line + 1) 1 toks
         else tokenizeFrom cs line (col + 1) toks)
      else if startsWith2 (CHR ''/'') (CHR ''/'') (c # cs) then
        (let comment = c # CHR ''/'' # takeWhile (\<lambda>x. x \<noteq> CHR 0x0A) (tl cs)
         in tokenizeFrom (dropWhile (\<lambda>x. x \<noteq> CHR 0x0A) (tl cs)) line
              (col + int (length comment)) (toks @ [mkToken T_COMMENT comment line col]))
      else if startsWith2 (CHR ''/'') (CHR ''*'') (c # cs) then
        (case scanBlockComment (tl cs) line col of
           (body, rest, line', col') \<Rightarrow>
             (let comment = c # CHR ''*'' # body @ take 2 rest
              in tokenizeFrom (drop 2 rest) line' (col' + int (length comment))
                   (toks @ [mkToken T_COMMENT comment line' col'])))
      else
        (case symbolType c of
           Some ty \<Rightarrow> tokenizeFrom cs line (col + 1) (toks @ [mkToken ty [c] line col])
         | None \<Rightarrow>
            if startsWith2 (CHR ''-'') (CHR ''>'') (c # cs) then
              tokenizeFrom (tl cs) line (col + 2) (toks @ [mkToken T_ARROW ''->'' line col])
            else if c = CHR 0x22 then
              (case scanString cs line col of
                 (body, rest, line', col') \<Rightarrow>
                   (let v = (if rest \<noteq> [] then body
                             else if body = [] then [c] else butlast body)
                    in tokenizeFrom (tl rest) line' (col' + 1)
                         (toks @ [mkToken T_STRING v line' (col' - int (length v) - 2)])))
            else if isDigit c then
              (let v = c # takeWhile isNumberPart cs
               in tokenizeFrom (dropWhile isNumberPart cs) line (col + int (length v))
                    (toks @ [mkToken T_NUMBER v line col]))
            else if isIdentStart c then
              (let v = c # takeWhile isIdentPart cs
               in tokenizeFrom (dropWhile isIdentPart cs) line (col + int (length v))
                    (toks @ [mkToken (keywordOrIdentifier v) v line col]))
            else Inl (UnexpectedCharacter c line col)))"
  by pat_completeness auto
termination
  by (relation "measure (\<lambda>(src, line, col, toks). length src)")
     (auto dest!: scanBlockComment_length[OF sym] scanString_length[OF sym]
        simp: le_imp_less_Suc length_dropWhile_le length_dropWhile_tl length_tl_rest)

declare tokenizeFrom.simps [simp del]

definition tokenize :: "string \<Rightarrow> Error + Token list" where
  "tokenize source = tokenizeFrom source 1 1 []"

lemmas lex_defs = tokenizeFrom.simps tokenize_def isSpace_def isDigit_def isLetter_def isIdentStart_def
  isIdentPart_def isNumberPart_def symbolType_def startsWith2_def mkToken_def
  keywordOrIdentifier_def KEYWORDS_def objectPrototypeMembers_def

section \<open>Parser (DslParser)\<close>

text \<open>
  The cursor state of the parser: the tokens from the cursor on (\<open>peek\<close> is the head), the
  token before the cursor (\<open>previous\<close>), and the number of identifiers generated so far.
  The identifiers that the source builds from \<open>Date.now()\<close> and \<open>Math.random()\<close> are taken
  from a parameter \<open>genId\<close>: \<open>genId n\<close> is the identifier generated after \<open>n\<close> others.
  A parsing function returns its value with the new state, or the error it throws.
\<close>

record PState =
  previousTok :: "Token option"
  remaining :: "Token list"
  generated :: nat

type_synonym 'a result = "Error + ('a \<times> PState)"

definition thenP :: "'a result \<Rightarrow> ('a \<Rightarrow> PState \<Rightarrow> 'b result) \<Rightarrow> 'b result" where
  "thenP r k = (case r of Inl e \<Rightarrow> Inl e | Inr (x, st) \<Rightarrow> k x st)"

lemma thenP_cong [fundef_cong]:
  "r = r' \<Longrightarrow> (\<And>x st. r' = Inr (x, st) \<Longrightarrow> k x st = k' x st) \<Longrightarrow> thenP r k = thenP r' k'"
  by (auto simp: thenP_def split: sum.splits)

lemma thenP_simps [simp]:
  "thenP (Inl e) k = Inl e"
  "thenP (Inr (x, st)) k = k x st"
  by (simp_all add: thenP_def)

text \<open>
  \<open>isAtEnd\<close>, \<open>check\<close> and \<open>error\<close> on the token at the cursor; \<open>advanced\<close> is the state
  after the cursor has moved over it. \<open>match\<close>, \<open>consume\<close> and \<open>advance\<close> read the token at
  the cursor first: with no token there they end in a \<open>TypeError\<close>.
\<close>

definition isAtEnd :: "Token \<Rightarrow> bool" where
  "isAtEnd t \<longleftrightarrow> tok_type t = T_EOF"

definition check :: "TokenType \<Rightarrow> Token \<Rightarrow> bool" where
  "check ty t = (if isAtEnd t then False else tok_type t = ty)"

definition error :: "Token \<Rightarrow> string \<Rightarrow> Error" where
  "error t message = ParseError message (tok_line t) (tok_column t)"

definition advanced :: "Token \<Rightarrow> Token list \<Rightarrow> PState \<Rightarrow> PState" where
  "advanced t ts st = st\<lparr>previousTok := Some t, remaining := ts\<rparr>"

definition errorAtPeek :: "string \<Rightarrow> PState \<Rightarrow> 'a result" where
  "errorAtPeek message st =
     (case remaining st of [] \<Rightarrow> Inl TypeError | t # ts \<Rightarrow> Inl (error t message))"

definition advance :: "PState \<Rightarrow> Token option result" where
  "advance st =
     (case remaining st of
        [] \<Rightarrow> Inl TypeError
      | t # ts \<Rightarrow> if isAtEnd t then Inr (previousTok st, st) else Inr (Some t, advanced t ts st))"

definition match :: "TokenType \<Rightarrow> PState \<Rightarrow> bool result" where
  "match ty st =
     (case remaining st of
        [] \<Rightarrow> Inl TypeError
      | t # ts \<Rightarrow> if check ty t then Inr (True, advanced t ts st) else Inr (False, st))"

definition consume :: "TokenType \<Rightarrow> string \<Rightarrow> PState \<Rightarrow> Token result" where
  "consume ty message st =
     (case remaining st of
        [] \<Rightarrow> Inl TypeError
      | t # ts \<Rightarrow> if check ty t then Inr (t, advanced t ts st) else Inl (error t message))"

text \<open>
  The rounding of a positive rational \<open>N / D\<close> to a double, to the nearest with ties to
  the even significand. \<open>binaryExponent N D\<close> is the \<open>e\<close> with \<open>2^e \<le> N / D < 2^(e + 1)\<close>; the
  doubles around \<open>N / D\<close> are the multiples of \<open>2^k\<close>, where \<open>k\<close> is \<open>e - 52\<close>, or \<open>-1074\<close> in the
  subnormal range; a result of \<open>2^1024\<close> or more is an infinity. This is the exact
  rounding, which the engine computes for a literal of any length.
\<close>

fun floorLog2 :: "nat \<Rightarrow> nat" where
  "floorLog2 n = (if n < 2 then 0 else Suc (floorLog2 (n div 2)))"

declare floorLog2.simps [simp del]

definition binaryExponent :: "nat \<Rightarrow> nat \<Rightarrow> int" where
  "binaryExponent N D =
     (let d = int (floorLog2 N) - int (floorLog2 D)
      in if (if 0 \<le> d then D * 2 ^ nat d \<le> N else D \<le> N * 2 ^ nat (- d)) then d else d - 1)"

definition roundHalfEven :: "nat \<Rightarrow> nat \<Rightarrow> nat" where
  "roundHalfEven N D =
     (let f = N div D; r = N mod D
      in if 2 * r < D then f else if D < 2 * r then f + 1 else if even f then f else f + 1)"

definition toDouble :: "bool \<Rightarrow> nat \<Rightarrow> nat \<Rightarrow> jsnumber" where
  "toDouble negative N D =
     (if N = 0 then Finite 0
      else
        (let e = binaryExponent N D;
             k = max (e - 52) (- 1074);
             n = (if 0 \<le> k then roundHalfEven N (D * 2 ^ nat k)
                  else roundHalfEven (N * 2 ^ nat (- k)) D);
             r = (if 0 \<le> k then of_nat (n * 2 ^ nat k) else of_nat n / 2 ^ nat (- k))
         in if (2::rat) ^ 1024 \<le> r then (if negative then NegInfinity else PosInfinity)
            else Finite (if negative then - r else r)))"

text \<open>
  \<open>parseFloat\<close>: leading white space is skipped, then the longest prefix that is a decimal
  literal is read: a sign, then \<open>Infinity\<close>, or digits with a point and an exponent part
  (\<open>e\<close> or \<open>E\<close>, a sign, digits), of which only the digits before or after the point are
  required. With no such prefix the result is \<open>NaN\<close>. \<open>decimalExponent\<close> is the value of
  the exponent part at the head of a string, \<open>0\<close> when there is none.
\<close>

definition decimalExponent :: "string \<Rightarrow> int" where
  "decimalExponent s =
     (case s of
        [] \<Rightarrow> 0
      | c # cs \<Rightarrow>
          if c = CHR ''e'' \<or> c = CHR ''E'' then
            (let negative = (case cs of d # _ \<Rightarrow> d = CHR ''-'' | [] \<Rightarrow> False);
                 digits = takeWhile isDigit
                   (case cs of
                      d # ds \<Rightarrow> if d = CHR ''+'' \<or> d = CHR ''-'' then ds else cs
                    | [] \<Rightarrow> [])
             in if negative then - int (digitsValue digits) else int (digitsValue digits))
          else 0)"

definition parseFloat :: "string \<Rightarrow> jsnumber" where
  "parseFloat s =
     (let trimmed = dropWhile isSpace s;
          negative = (case trimmed of c # _ \<Rightarrow> c = CHR ''-'' | [] \<Rightarrow> False);
          unsigned = (case trimmed of
                        c # cs \<Rightarrow> if c = CHR ''+'' \<or> c = CHR ''-'' then cs else trimmed
                      | [] \<Rightarrow> []);
          whole = takeWhile isDigit unsigned;
          after = dropWhile isDigit unsigned;
          hasPoint = (case after of c # _ \<Rightarrow> c = CHR ''.'' | [] \<Rightarrow> False);
          fraction = (if hasPoint then takeWhile isDigit (tl after) else []);
          rest = (if hasPoint then dropWhile isDigit (tl after) else after);
          mantissa = digitsValue (whole @ fraction);
          scale = int (length fraction) - decimalExponent rest
      in if take 8 unsigned = ''Infinity'' then (if negative then NegInfinity else PosInfinity)
         else if whole = [] \<and> fraction = [] then NaN
         else if 0 \<le> scale then toDouble negative mantissa (10 ^ nat scale)
         else toDouble negative (mantissa * 10 ^ nat (- scale)) 1)"

definition parseString :: "PState \<Rightarrow> string result" where
  "parseString st = thenP (consume T_STRING ''Expected string'' st) (\<lambda>token st'. Inr (tok_value token, st'))"

definition parseNumber :: "PState \<Rightarrow> jsnumber result" where
  "parseNumber st =
     thenP (consume T_NUMBER ''Expected number'' st) (\<lambda>token st'. Inr (parseFloat (tok_value token), st'))"

definition parseBoolean :: "PState \<Rightarrow> bool result" where
  "parseBoolean st =
     thenP (consume T_BOOLEAN ''Expected boolean'' st) (\<lambda>token st'. Inr (tok_value token = ''true'', st'))"

definition parseIdentifier :: "PState \<Rightarrow> string result" where
  "parseIdentifier st =
     thenP (consume T_IDENTIFIER ''Expected identifier'' st) (\<lambda>token st'. Inr (tok_value token, st'))"

lemma consume_shorter:
  "consume ty message st = Inr (t, st') \<Longrightarrow> length (remaining st') < length (remaining st)"
  by (auto simp: consume_def advanced_def split: list.splits if_splits)

lemma parseString_shorter:
  "parseString st = Inr (x, st') \<Longrightarrow> length (remaining st') < length (remaining st)"
  by (auto simp: parseString_def thenP_def split: sum.splits dest: consume_shorter)

lemma parseNumber_shorter:
  "parseNumber st = Inr (x, st') \<Longrightarrow> length (remaining st') < length (remaining st)"
  by (auto simp: parseNumber_def thenP_def split: sum.splits dest: consume_shorter)

lemma parseBoolean_shorter:
  "parseBoolean st = Inr (x, st') \<Longrightarrow> length (remaining st') < length (remaining st)"
  by (auto simp: parseBoolean_def thenP_def split: sum.splits dest: consume_shorter)

lemma parseIdentifier_shorter:
  "parseIdentifier st = Inr (x, st') \<Longrightarrow> length (remaining st') < length (remaining st)"
  by (auto simp: parseIdentifier_def thenP_def split: sum.splits dest: consume_shorter)

lemma advanced_length [simp]: "length (remaining (advanced t ts st)) = length ts"
  by (simp add: advanced_def)

text \<open>
  Values, arrays and objects. The three productions call each other, and the two loops
  continue with the state that \<open>parseValue\<close> returns: termination needs that no call
  returns a state with more tokens than it was given, which is proved first on the domain
  of the functions.
\<close>

function parseValue :: "PState \<Rightarrow> jsvalue result"
  and parseArray :: "PState \<Rightarrow> jsvalue list result"
  and parseArrayLoop :: "jsvalue list \<Rightarrow> PState \<Rightarrow> jsvalue list result"
  and parseObject :: "PState \<Rightarrow> (string \<times> jsvalue) list result"
  and parseObjectLoop :: "(string \<times> jsvalue) list \<Rightarrow> PState \<Rightarrow> (string \<times> jsvalue) list result"
where
  "parseValue st =
     (case remaining st of
        [] \<Rightarrow> Inl TypeError
      | t # ts \<Rightarrow>
          if check T_STRING t then thenP (parseString st) (\<lambda>s st'. Inr (JStr s, st'))
          else if check T_NUMBER t then thenP (parseNumber st) (\<lambda>n st'. Inr (JNum n, st'))
          else if check T_BOOLEAN t then thenP (parseBoolean st) (\<lambda>b st'. Inr (JBool b, st'))
          else if check T_LEFT_BRACKET t then thenP (parseArray st) (\<lambda>a st'. Inr (JArr a, st'))
          else if check T_LEFT_BRACE t then thenP (parseObject st) (\<lambda>obj st'. Inr (JObj obj, st'))
          else Inl (error t ''Expected value''))"
| "parseArray st =
     thenP (consume T_LEFT_BRACKET ''Expected [ for array'' st) (\<lambda>_ st1.
     thenP (parseArrayLoop [] st1) (\<lambda>array st2.
     thenP (consume T_RIGHT_BRACKET ''Expected ] after array'' st2) (\<lambda>_ st3.
     Inr (array, st3))))"
| "parseArrayLoop array st =
     (case remaining st of
        [] \<Rightarrow> Inl TypeError
      | t # ts \<Rightarrow>
          if \<not> check T_RIGHT_BRACKET t \<and> \<not> isAtEnd t then
            thenP (parseValue st) (\<lambda>v st1.
              (case remaining st1 of
                 [] \<Rightarrow> Inl TypeError
               | t1 # ts1 \<Rightarrow>
                   if check T_COMMA t1 then parseArrayLoop (array @ [v]) (advanced t1 ts1 st1)
                   else Inr (array @ [v], st1)))
          else Inr (array, st))"
| "parseObject st =
     thenP (consume T_LEFT_BRACE ''Expected { after parameters keyword'' st) (\<lambda>_ st1.
     thenP (parseObjectLoop [] st1) (\<lambda>obj st2.
     thenP (consume T_RIGHT_BRACE ''Expected } after parameters section'' st2) (\<lambda>_ st3.
     Inr (obj, st3))))"
| "parseObjectLoop obj st =
     (case remaining st of
        [] \<Rightarrow> Inl TypeError
      | t # ts \<Rightarrow>
          if \<not> check T_RIGHT_BRACE t \<and> \<not> isAtEnd t then
            (if check T_IDENTIFIER t then
               thenP (parseIdentifier st) (\<lambda>key st1.
               thenP (consume T_COLON ''Expected : after parameter name'' st1) (\<lambda>_ st2.
               thenP (parseValue st2) (\<lambda>v st3.
               parseObjectLoop (objSet key v obj) st3)))
             else if check T_COMMENT t then parseObjectLoop obj (advanced t ts st)
             else Inl (error t ''Expected parameter definition''))
          else Inr (obj, st))"
  by pat_completeness auto




lemma thenP_Inr: "thenP r k = Inr y \<longleftrightarrow> (\<exists>x st. r = Inr (x, st) \<and> k x st = Inr y)"
  by (auto simp: thenP_def split: sum.splits)

lemma thenP_InrE:
  assumes "thenP r k = Inr y"
  obtains x st where "r = Inr (x, st)" "k x st = Inr y"
  using assms by (auto simp: thenP_Inr)

abbreviation (input) "valueDom \<equiv> parseValue_parseArray_parseArrayLoop_parseObject_parseObjectLoop_dom"

lemma parse_value_dom_no_growth:
  "valueDom (Inl (Inl st)) \<Longrightarrow> parseValue st = Inr (v, st')
     \<Longrightarrow> length (remaining st') \<le> length (remaining st)"
  "valueDom (Inl (Inr st)) \<Longrightarrow> parseArray st = Inr (a, st')
     \<Longrightarrow> length (remaining st') \<le> length (remaining st)"
  "valueDom (Inr (Inl (array, st))) \<Longrightarrow> parseArrayLoop array st = Inr (a, st')
     \<Longrightarrow> length (remaining st') \<le> length (remaining st)"
  "valueDom (Inr (Inr (Inl st))) \<Longrightarrow> parseObject st = Inr (ob, st')
     \<Longrightarrow> length (remaining st') \<le> length (remaining st)"
  "valueDom (Inr (Inr (Inr (obj, st)))) \<Longrightarrow> parseObjectLoop obj st = Inr (ob, st')
     \<Longrightarrow> length (remaining st') \<le> length (remaining st)"
proof (induct st and st and array st and st and obj st arbitrary: v st' and a st' and a st' and ob st' and ob st'
    rule: parseValue_parseArray_parseArrayLoop_parseObject_parseObjectLoop.pinduct)
  case (1 st)
  show ?case
  proof (cases "remaining st")
    case Nil
    with "1.prems" "1.hyps"(1) show ?thesis by (simp add: parseValue.psimps)
  next
    case (Cons t ts)
    from "1.prems" "1.hyps"(1) show ?thesis
      using "1.hyps"(2,3)[OF Cons]
      by (auto simp: parseValue.psimps Cons split: if_splits elim!: thenP_InrE
          dest!: parseString_shorter parseNumber_shorter parseBoolean_shorter)
  qed
next
  case (2 st)
  from "2.prems" "2.hyps"(1) obtain x st1 arr st2 y where
    c1: "consume T_LEFT_BRACKET ''Expected [ for array'' st = Inr (x, st1)"
    and lp: "parseArrayLoop [] st1 = Inr (arr, st2)"
    and c2: "consume T_RIGHT_BRACKET ''Expected ] after array'' st2 = Inr (y, st')"
    by (auto simp: parseArray.psimps elim!: thenP_InrE)
  from consume_shorter[OF c1] "2.hyps"(2)[OF c1 lp] consume_shorter[OF c2] show ?case by simp
next
  case (3 array st)
  show ?case
  proof (cases "remaining st")
    case Nil
    with "3.prems" "3.hyps"(1) show ?thesis by (simp add: parseArrayLoop.psimps)
  next
    case (Cons t ts)
    show ?thesis
    proof (cases "\<not> check T_RIGHT_BRACKET t \<and> \<not> isAtEnd t")
      case False
      with "3.prems" "3.hyps"(1) Cons show ?thesis by (auto simp: parseArrayLoop.psimps)
    next
      case True
      with "3.prems" "3.hyps"(1) Cons obtain x st1 where
        pv: "parseValue st = Inr (x, st1)"
        and k: "(case remaining st1 of
                 [] \<Rightarrow> Inl TypeError
               | t1 # ts1 \<Rightarrow>
                   if check T_COMMA t1 then parseArrayLoop (array @ [x]) (advanced t1 ts1 st1)
                   else Inr (array @ [x], st1)) = Inr (a, st')"
        by (auto simp: parseArrayLoop.psimps elim!: thenP_InrE)
      note le1 = "3.hyps"(2)[OF Cons True pv]
      show ?thesis
      proof (cases "remaining st1")
        case Nil
        with k show ?thesis by simp
      next
        case c1: (Cons t1 ts1)
        show ?thesis
        proof (cases "check T_COMMA t1")
          case False
          with k c1 le1 show ?thesis by simp
        next
          case comma: True
          with k c1 have "parseArrayLoop (array @ [x]) (advanced t1 ts1 st1) = Inr (a, st')"
            by simp
          from "3.hyps"(3)[OF Cons True pv c1 comma this] le1 c1 show ?thesis by simp
        qed
      qed
    qed
  qed
next
  case (4 st)
  from "4.prems" "4.hyps"(1) obtain x st1 props st2 y where
    c1: "consume T_LEFT_BRACE ''Expected { after parameters keyword'' st = Inr (x, st1)"
    and lp: "parseObjectLoop [] st1 = Inr (props, st2)"
    and c2: "consume T_RIGHT_BRACE ''Expected } after parameters section'' st2 = Inr (y, st')"
    by (auto simp: parseObject.psimps elim!: thenP_InrE)
  from consume_shorter[OF c1] "4.hyps"(2)[OF c1 lp] consume_shorter[OF c2] show ?case by simp
next
  case (5 obj st)
  show ?case
  proof (cases "remaining st")
    case Nil
    with "5.prems" "5.hyps"(1) show ?thesis by (simp add: parseObjectLoop.psimps)
  next
    case (Cons t ts)
    show ?thesis
    proof (cases "\<not> check T_RIGHT_BRACE t \<and> \<not> isAtEnd t")
      case False
      with "5.prems" "5.hyps"(1) Cons show ?thesis by (auto simp: parseObjectLoop.psimps)
    next
      case True
      show ?thesis
      proof (cases "check T_IDENTIFIER t")
        case ident: True
        with True "5.prems" "5.hyps"(1) Cons obtain key st1 y st2 x st3 where
          pi: "parseIdentifier st = Inr (key, st1)"
          and c: "consume T_COLON ''Expected : after parameter name'' st1 = Inr (y, st2)"
          and pv: "parseValue st2 = Inr (x, st3)"
          and lp: "parseObjectLoop (objSet key x obj) st3 = Inr (ob, st')"
          by (auto simp: parseObjectLoop.psimps elim!: thenP_InrE)
        from "5.hyps"(2)[OF Cons True ident pi c pv] "5.hyps"(3)[OF Cons True ident pi c pv lp]
          parseIdentifier_shorter[OF pi] consume_shorter[OF c]
        show ?thesis by simp
      next
        case noident: False
        show ?thesis
        proof (cases "check T_COMMENT t")
          case True
          with noident \<open>\<not> check T_RIGHT_BRACE t \<and> \<not> isAtEnd t\<close> "5.prems" "5.hyps"(1) Cons
          have lp: "parseObjectLoop obj (advanced t ts st) = Inr (ob, st')"
            by (auto simp: parseObjectLoop.psimps)
          from "5.hyps"(4)[OF Cons \<open>\<not> check T_RIGHT_BRACE t \<and> \<not> isAtEnd t\<close> noident True lp] Cons
          show ?thesis by simp
        next
          case False
          with noident True "5.prems" "5.hyps"(1) Cons show ?thesis
            by (auto simp: parseObjectLoop.psimps)
        qed
      qed
    qed
  qed
qed


lemma value_dom_total: "All valueDom"
proof (relation "measure (\<lambda>x. case x of
      Inl (Inl st) \<Rightarrow> 3 * length (remaining st) + 1
    | Inl (Inr st) \<Rightarrow> 3 * length (remaining st)
    | Inr (Inl (array, st)) \<Rightarrow> 3 * length (remaining st) + 2
    | Inr (Inr (Inl st)) \<Rightarrow> 3 * length (remaining st)
    | Inr (Inr (Inr (obj, st))) \<Rightarrow> 3 * length (remaining st) + 2)", goal_cases)
  case 1
  then show ?case by simp
next
  case (2 st t ts)
  then show ?case by simp
next
  case (3 st t ts)
  then show ?case by simp
next
  case (4 st x st1)
  from consume_shorter[OF 4(1)] show ?case by simp
next
  case (5 array st t ts)
  then show ?case by simp
next
  case (6 array st t ts v st1 t1 ts1)
  from parse_value_dom_no_growth(1)[OF 6(6) 6(3)] 6(1,4) show ?case by simp
next
  case (7 st x st1)
  from consume_shorter[OF 7(1)] show ?case by simp
next
  case (8 obj st t ts key st1 y st2)
  from parseIdentifier_shorter[OF 8(4)] consume_shorter[OF 8(5)] 8(1) show ?case by simp
next
  case (9 obj st t ts key st1 y st2 v st3)
  from parseIdentifier_shorter[OF 9(4)] consume_shorter[OF 9(5)]
    parse_value_dom_no_growth(1)[OF 9(7) 9(6)] 9(1) show ?case by simp
next
  case (10 obj st t ts)
  then show ?case by simp
qed


termination parseValue
  by (rule value_dom_total)

declare parseValue.simps [simp del] parseArray.simps [simp del] parseArrayLoop.simps [simp del]
  parseObject.simps [simp del] parseObjectLoop.simps [simp del]

lemma parseValue_no_growth:
  assumes "parseValue st = Inr (v, st')"
  shows "length (remaining st') \<le> length (remaining st)"
  by (rule parse_value_dom_no_growth(1)[OF _ assms])
     (simp add: value_dom_total)

lemma parseObject_no_growth:
  assumes "parseObject st = Inr (v, st')"
  shows "length (remaining st') \<le> length (remaining st)"
  by (rule parse_value_dom_no_growth(4)[OF _ assms])
     (simp add: value_dom_total)

text \<open>
  The \<open>switch\<close> over the operator text, which \<open>parseCondition\<close> and \<open>parseOperator\<close>
  both contain.
\<close>

definition operatorOf :: "string \<Rightarrow> ConditionOperator option" where
  "operatorOf s =
     (if s = ''=='' \<or> s = ''='' \<or> s = ''equals'' then Some EQUALS
      else if s = ''!='' \<or> s = ''not_equals'' then Some NOT_EQUALS
      else if s = ''>'' \<or> s = ''greater_than'' then Some GREATER_THAN
      else if s = ''<'' \<or> s = ''less_than'' then Some LESS_THAN
      else if s = ''>='' \<or> s = ''greater_than_or_equals'' then Some GREATER_THAN_OR_EQUALS
      else if s = ''<='' \<or> s = ''less_than_or_equals'' then Some LESS_THAN_OR_EQUALS
      else if s = ''contains'' then Some CONTAINS
      else if s = ''not_contains'' then Some NOT_CONTAINS
      else if s = ''starts_with'' then Some STARTS_WITH
      else if s = ''ends_with'' then Some ENDS_WITH
      else if s = ''regex'' then Some REGEX
      else None)"

definition parseOperator :: "PState \<Rightarrow> ConditionOperator result" where
  "parseOperator st =
     thenP (advance st) (\<lambda>token st'.
       (case token of
          None \<Rightarrow> Inl TypeError
        | Some tk \<Rightarrow>
            (case operatorOf (tok_value tk) of
               Some op \<Rightarrow> Inr (op, st')
             | None \<Rightarrow> Inl (error tk ''Expected operator''))))"

text \<open>
  \<open>conditionStr.split(/\s+/)\<close>: the pieces between maximal runs of white space; a string
  that starts or ends with white space has an empty first or last piece.
\<close>

function splitFrom :: "string \<Rightarrow> string \<Rightarrow> string list" where
  "splitFrom part [] = [part]"
| "splitFrom part (c # cs) =
     (if isSpace c then part # splitFrom [] (dropWhile isSpace cs)
      else splitFrom (part @ [c]) cs)"
  by pat_completeness auto
termination
  by (relation "measure (\<lambda>(part, s). length s)")
     (auto simp: le_imp_less_Suc length_dropWhile_le)

definition splitWhitespace :: "string \<Rightarrow> string list" where
  "splitWhitespace s = splitFrom [] s"

text \<open>
  The regular expression \<open>^[0-9]+(\.[0-9]+)?$\<close> and the typing of the right operand.
\<close>

definition isDecimalLiteral :: "string \<Rightarrow> bool" where
  "isDecimalLiteral s =
     (let whole = takeWhile isDigit s; after = dropWhile isDigit s
      in whole \<noteq> [] \<and>
         (case after of
            [] \<Rightarrow> True
          | c # fraction \<Rightarrow> c = CHR ''.'' \<and> fraction \<noteq> [] \<and> list_all isDigit fraction))"

definition sniffOperand :: "string \<Rightarrow> jsvalue" where
  "sniffOperand s =
     (if s = ''true'' then JBool True
      else if s = ''false'' then JBool False
      else if isDecimalLiteral s then JNum (parseFloat s)
      else JStr s)"

definition parseCondition :: "PState \<Rightarrow> Condition result" where
  "parseCondition st =
     thenP (parseString st) (\<lambda>conditionStr st1.
     thenP (consume T_THEN ''Expected then keyword after condition'' st1) (\<lambda>_ st2.
     thenP (parseString st2) (\<lambda>targetName st3.
       (case splitWhitespace conditionStr of
          [leftOperandStr, operatorStr, rightOperandStr] \<Rightarrow>
            (case operatorOf operatorStr of
               None \<Rightarrow> Inl (UnknownOperator operatorStr)
             | Some op \<Rightarrow>
                 Inr (\<lparr>leftOperand = leftOperandStr, operator = op,
                       rightOperand = sniffOperand rightOperandStr,
                       cond_metadata = Some [(''targetName'', JStr targetName)]\<rparr>, st3))
        | _ \<Rightarrow> Inl (InvalidConditionFormat conditionStr)))))"

definition resourceTypeOf :: "string \<Rightarrow> ResourceType" where
  "resourceTypeOf s =
     (if s = ''cpu'' then CPU else if s = ''memory'' then MEMORY
      else if s = ''gpu'' then GPU else CUSTOM)"

function parseResourcesLoop :: "ResourceRequirement list \<Rightarrow> PState \<Rightarrow> ResourceRequirement list result"
where
  "parseResourcesLoop resources st =
     (case remaining st of
        [] \<Rightarrow> Inl TypeError
      | t # ts \<Rightarrow>
          if \<not> check T_RIGHT_BRACE t \<and> \<not> isAtEnd t then
            (if check T_IDENTIFIER t then
               thenP (parseIdentifier st) (\<lambda>resourceTypeStr st1.
               thenP (consume T_COLON ''Expected : after resource type'' st1) (\<lambda>_ st2.
               thenP (parseNumber st2) (\<lambda>n st3.
               parseResourcesLoop
                 (resources @
                    [\<lparr>resourceType = resourceTypeOf resourceTypeStr, amount = Number n,
                      resourceId = (if resourceTypeOf resourceTypeStr = CUSTOM
                                    then Some resourceTypeStr else None)\<rparr>]) st3)))
             else if check T_COMMENT t then parseResourcesLoop resources (advanced t ts st)
             else Inl (error t ''Expected resource definition''))
          else Inr (resources, st))"
  by pat_completeness auto
termination
  by (relation "measure (\<lambda>(resources, st). length (remaining st))")
     (auto dest!: parseIdentifier_shorter consume_shorter parseNumber_shorter)

declare parseResourcesLoop.simps [simp del]

definition parseResources :: "PState \<Rightarrow> ResourceRequirement list result" where
  "parseResources st =
     thenP (consume T_LEFT_BRACE ''Expected { after resources keyword'' st) (\<lambda>_ st1.
     thenP (parseResourcesLoop [] st1) (\<lambda>resources st2.
     thenP (consume T_RIGHT_BRACE ''Expected } after resources section'' st2) (\<lambda>_ st3.
     Inr (resources, st3))))"


text \<open>
  No parsing function returns a state with more tokens than it was given. The loops below
  terminate by it.
\<close>

definition noGrowth :: "'a result \<Rightarrow> PState \<Rightarrow> bool" where
  "noGrowth r st =
     (case r of Inl e \<Rightarrow> True | Inr (x, st') \<Rightarrow> length (remaining st') \<le> length (remaining st))"

lemma noGrowth_Inl [simp]: "noGrowth (Inl e) st"
  by (simp add: noGrowth_def)

lemma noGrowth_Inr [simp]:
  "noGrowth (Inr (x, st')) st \<longleftrightarrow> length (remaining st') \<le> length (remaining st)"
  by (simp add: noGrowth_def)

lemma noGrowthD:
  "noGrowth r st \<Longrightarrow> r = Inr (x, st') \<Longrightarrow> length (remaining st') \<le> length (remaining st)"
  by (simp add: noGrowth_def)

lemma noGrowthI:
  "(\<And>x st'. r = Inr (x, st') \<Longrightarrow> length (remaining st') \<le> length (remaining st)) \<Longrightarrow> noGrowth r st"
  by (auto simp: noGrowth_def split: sum.splits)

lemma noGrowth_thenP:
  "noGrowth r st \<Longrightarrow> (\<And>x st1. r = Inr (x, st1) \<Longrightarrow> noGrowth (k x st1) st1)
     \<Longrightarrow> noGrowth (thenP r k) st"
  by (auto simp: noGrowth_def thenP_def split: sum.splits)

lemma noGrowth_advanced:
  "remaining st = t # ts \<Longrightarrow> noGrowth r (advanced t ts st) \<Longrightarrow> noGrowth r st"
  by (auto simp: noGrowth_def split: sum.splits)

lemma noGrowth_consume: "noGrowth (consume ty message st) st"
  by (rule noGrowthI) (auto dest: consume_shorter)

lemma noGrowth_parseString: "noGrowth (parseString st) st"
  by (rule noGrowthI) (auto dest: parseString_shorter)

lemma noGrowth_parseNumber: "noGrowth (parseNumber st) st"
  by (rule noGrowthI) (auto dest: parseNumber_shorter)

lemma noGrowth_parseBoolean: "noGrowth (parseBoolean st) st"
  by (rule noGrowthI) (auto dest: parseBoolean_shorter)

lemma noGrowth_parseIdentifier: "noGrowth (parseIdentifier st) st"
  by (rule noGrowthI) (auto dest: parseIdentifier_shorter)

lemma noGrowth_parseValue: "noGrowth (parseValue st) st"
  by (rule noGrowthI) (auto dest: parseValue_no_growth)

lemma noGrowth_parseObject: "noGrowth (parseObject st) st"
  by (rule noGrowthI) (auto dest: parseObject_no_growth)

lemma noGrowth_advance: "noGrowth (advance st) st"
  by (auto simp: advance_def split: list.splits)

lemma noGrowth_match: "noGrowth (match ty st) st"
  by (auto simp: match_def split: list.splits)

lemma noGrowth_parseOperator: "noGrowth (parseOperator st) st"
  unfolding parseOperator_def
  by (intro noGrowth_thenP noGrowth_advance) (auto split: option.splits)

lemma noGrowth_parseCondition: "noGrowth (parseCondition st) st"
  unfolding parseCondition_def
  by (intro noGrowth_thenP noGrowth_parseString noGrowth_consume)
     (auto split: list.splits option.splits)

lemmas noGrowth_basic = noGrowth_consume noGrowth_parseString noGrowth_parseNumber
  noGrowth_parseBoolean noGrowth_parseIdentifier noGrowth_parseValue noGrowth_parseObject
  noGrowth_advance noGrowth_match noGrowth_parseOperator noGrowth_parseCondition

lemma noGrowth_parseResourcesLoop: "noGrowth (parseResourcesLoop resources st) st"
proof (induction resources st rule: parseResourcesLoop.induct)
  case (1 resources st)
  show ?case
    apply (subst parseResourcesLoop.simps)
    apply (auto split: list.splits intro!: noGrowth_thenP noGrowth_basic "1.IH")
    apply (rule noGrowth_advanced, assumption, rule "1.IH", simp_all)
    done
qed


lemma noGrowth_parseResources: "noGrowth (parseResources st) st"
  unfolding parseResources_def
  by (intro noGrowth_thenP noGrowth_consume noGrowth_parseResourcesLoop) simp

function parseTrackLoop :: "Track \<Rightarrow> PState \<Rightarrow> Track result" where
  "parseTrackLoop track st =
     (case remaining st of
        [] \<Rightarrow> Inl TypeError
      | t # ts \<Rightarrow>
          if \<not> check T_RIGHT_BRACE t \<and> \<not> isAtEnd t then
            (if check T_DESCRIPTION t then
               thenP (parseString (advanced t ts st)) (\<lambda>d st1.
               parseTrackLoop (track\<lparr>track_description := Some d\<rparr>) st1)
             else if check T_COMMENT t then parseTrackLoop track (advanced t ts st)
             else Inl (error t ''Expected track property''))
          else Inr (track, st))"
  by pat_completeness auto
termination
  by (relation "measure (\<lambda>(track, st). length (remaining st))")
     (auto dest!: parseString_shorter)

declare parseTrackLoop.simps [simp del]

lemma noGrowth_parseTrackLoop: "noGrowth (parseTrackLoop track st) st"
proof (induction track st rule: parseTrackLoop.induct)
  case (1 track st)
  show ?case
    apply (subst parseTrackLoop.simps)
    apply (auto split: list.splits)
    apply (rule noGrowth_advanced, assumption,
        auto intro!: noGrowth_thenP noGrowth_basic "1.IH")+
    done
qed

definition parseTrack :: "(nat \<Rightarrow> string) \<Rightarrow> PState \<Rightarrow> Track result" where
  "parseTrack genId st =
     thenP (parseString st) (\<lambda>name st1.
     thenP (consume T_LEFT_BRACE ''Expected { after track name'' st1) (\<lambda>_ st2.
     thenP (parseTrackLoop
              \<lparr>track_id = genId (generated st2), track_name = name, track_description = None,
               nodeIds = []\<rparr>
              (st2\<lparr>generated := Suc (generated st2)\<rparr>)) (\<lambda>track st3.
     thenP (consume T_RIGHT_BRACE ''Expected } after track definition'' st3) (\<lambda>_ st4.
     Inr (track, st4)))))"

lemma noGrowth_generated:
  "noGrowth r (st\<lparr>generated := n\<rparr>) \<Longrightarrow> noGrowth r st"
  by (auto simp: noGrowth_def split: sum.splits)

lemma noGrowth_parseTrack: "noGrowth (parseTrack genId st) st"
  unfolding parseTrack_def
  apply (intro noGrowth_thenP noGrowth_consume noGrowth_parseString)
   apply (rule noGrowth_generated, rule noGrowth_parseTrackLoop)
  apply simp
  done

definition nodeTypeString :: "NodeType \<Rightarrow> string" where
  "nodeTypeString ty =
     (case ty of TASK \<Rightarrow> ''task'' | DECISION \<Rightarrow> ''decision'' | SYNC_POINT \<Rightarrow> ''sync_point''
      | START \<Rightarrow> ''start'' | END \<Rightarrow> ''end'')"

text \<open>
  \<open>node.config\<close> and \<open>node.conditions\<close>, created empty when absent.
\<close>

definition configOrNew :: "WorkflowNode \<Rightarrow> SyncPointConfig" where
  "configOrNew node =
     (case config node of
        None \<Rightarrow> \<lparr>requiredSources = [], waitForAll = None, cfg_timeout = None\<rparr>
      | Some c \<Rightarrow> c)"

definition conditionsOrNew :: "WorkflowNode \<Rightarrow> Condition list" where
  "conditionsOrNew node = (case conditions node of None \<Rightarrow> [] | Some cs \<Rightarrow> cs)"

function parseNodeLoop :: "NodeType \<Rightarrow> WorkflowNode \<Rightarrow> PState \<Rightarrow> WorkflowNode result" where
  "parseNodeLoop ty node st =
     (case remaining st of
        [] \<Rightarrow> Inl TypeError
      | t # ts \<Rightarrow>
          if \<not> check T_RIGHT_BRACE t \<and> \<not> isAtEnd t then
            (if check T_DESCRIPTION t then
               thenP (parseString (advanced t ts st)) (\<lambda>d st1.
               parseNodeLoop ty (node\<lparr>node_description := Some d\<rparr>) st1)
             else if check T_TRACK t then
               thenP (parseString (advanced t ts st)) (\<lambda>n st1.
               parseNodeLoop ty (node\<lparr>trackName := Some n\<rparr>) st1)
             else if check T_TYPE t then
               (if ty = TASK then
                  thenP (parseString (advanced t ts st)) (\<lambda>s st1.
                  parseNodeLoop ty (node\<lparr>taskType := Some s\<rparr>) st1)
                else errorAtPeek (''Type property not valid for '' @ nodeTypeString ty @ '' nodes'')
                       (advanced t ts st))
             else if check T_PARAMETERS t then
               thenP (parseObject (advanced t ts st)) (\<lambda>obj st1.
               parseNodeLoop ty (node\<lparr>parameters := Some obj\<rparr>) st1)
             else if check T_RESOURCES t then
               thenP (parseResources (advanced t ts st)) (\<lambda>rs st1.
               parseNodeLoop ty (node\<lparr>resourceRequirements := Some rs\<rparr>) st1)
             else if check T_CONDITION t then
               (if ty = DECISION then
                  thenP (parseCondition (advanced t ts st)) (\<lambda>c st1.
                  parseNodeLoop ty (node\<lparr>conditions := Some (conditionsOrNew node @ [c])\<rparr>) st1)
                else errorAtPeek
                       (''Condition property not valid for '' @ nodeTypeString ty @ '' nodes'')
                       (advanced t ts st))
             else if check T_DEFAULT t then
               (if ty = DECISION then
                  thenP (parseString (advanced t ts st)) (\<lambda>n st1.
                  parseNodeLoop ty (node\<lparr>defaultTargetName := Some n\<rparr>) st1)
                else errorAtPeek
                       (''Default property not valid for '' @ nodeTypeString ty @ '' nodes'')
                       (advanced t ts st))
             else if check T_WAIT_FOR_ALL t then
               (if ty = SYNC_POINT then
                  thenP (parseBoolean (advanced t ts st)) (\<lambda>b st1.
                  parseNodeLoop ty
                    (node\<lparr>config := Some ((configOrNew node)\<lparr>waitForAll := Some b\<rparr>)\<rparr>) st1)
                else errorAtPeek
                       (''wait_for_all property not valid for '' @ nodeTypeString ty @ '' nodes'')
                       (advanced t ts st))
             else if check T_TIMEOUT t then
               (if ty = SYNC_POINT then
                  thenP (parseNumber (advanced t ts st)) (\<lambda>n st1.
                  parseNodeLoop ty
                    (node\<lparr>config := Some ((configOrNew node)\<lparr>cfg_timeout := Some (Number n)\<rparr>)\<rparr>) st1)
                else if ty = TASK then
                  thenP (parseNumber (advanced t ts st)) (\<lambda>n st1.
                  parseNodeLoop ty (node\<lparr>timeout := Some (Number n)\<rparr>) st1)
                else errorAtPeek
                       (''timeout property not valid for '' @ nodeTypeString ty @ '' nodes'')
                       (advanced t ts st))
             else if check T_COMMENT t then parseNodeLoop ty node (advanced t ts st)
             else Inl (error t (''Expected '' @ nodeTypeString ty @ '' node property'')))
          else Inr (node, st))"
  by pat_completeness auto
termination
  by (relation "measure (\<lambda>(ty, node, st). length (remaining st))")
     (auto dest!: noGrowthD[OF noGrowth_parseString] noGrowthD[OF noGrowth_parseObject]
        noGrowthD[OF noGrowth_parseResources] noGrowthD[OF noGrowth_parseCondition]
        noGrowthD[OF noGrowth_parseBoolean] noGrowthD[OF noGrowth_parseNumber])

declare parseNodeLoop.simps [simp del]


lemma noGrowth_errorAtPeek [simp]: "noGrowth (errorAtPeek message st') st"
  by (simp add: errorAtPeek_def split: list.splits)

lemma noGrowth_ifI:
  "(c \<Longrightarrow> noGrowth a st) \<Longrightarrow> (\<not> c \<Longrightarrow> noGrowth b st) \<Longrightarrow> noGrowth (if c then a else b) st"
  by simp

lemma noGrowth_same: "noGrowth (Inr (x, st)) st"
  by simp

lemmas noGrowth_leaves = noGrowth_ifI noGrowth_Inl noGrowth_errorAtPeek noGrowth_same

lemma noGrowth_parseNodeLoop: "noGrowth (parseNodeLoop ty node st) st"
proof (induction ty node st rule: parseNodeLoop.induct)
  case (1 ty node st)
  show ?case
  proof (cases "remaining st")
    case Nil
    then show ?thesis by (subst parseNodeLoop.simps) simp
  next
    case (Cons t ts)
    have adv: "noGrowth r (advanced t ts st) \<Longrightarrow> noGrowth r st" for r :: "WorkflowNode result"
      using Cons by (rule noGrowth_advanced)
    note IH = "1.IH"[OF Cons]
    show ?thesis
      apply (subst parseNodeLoop.simps, simp only: Cons list.case)
      apply (intro noGrowth_leaves)
      apply (rule adv, intro noGrowth_thenP noGrowth_basic noGrowth_parseResources IH,
          assumption+)+
      done
  qed
qed

definition parseNode :: "(nat \<Rightarrow> string) \<Rightarrow> NodeType \<Rightarrow> PState \<Rightarrow> WorkflowNode result" where
  "parseNode genId ty st =
     thenP (parseString st) (\<lambda>name st1.
     thenP (consume T_LEFT_BRACE (''Expected { after '' @ nodeTypeString ty @ '' node name'') st1)
       (\<lambda>_ st2.
     thenP (parseNodeLoop ty (plainNode (genId (generated st2)) ty name)
              (st2\<lparr>generated := Suc (generated st2)\<rparr>)) (\<lambda>node st3.
     thenP (consume T_RIGHT_BRACE
              (''Expected } after '' @ nodeTypeString ty @ '' node definition'') st3) (\<lambda>_ st4.
     Inr (node, st4)))))"

lemma noGrowth_parseNode: "noGrowth (parseNode genId ty st) st"
  unfolding parseNode_def
  apply (intro noGrowth_thenP noGrowth_consume noGrowth_parseString)
   apply (rule noGrowth_generated, rule noGrowth_parseNodeLoop)
  apply simp
  done

function parseDependenciesLoop :: "Dependency list \<Rightarrow> PState \<Rightarrow> Dependency list result" where
  "parseDependenciesLoop deps st =
     (case remaining st of
        [] \<Rightarrow> Inl TypeError
      | t # ts \<Rightarrow>
          if \<not> check T_RIGHT_BRACE t \<and> \<not> isAtEnd t then
            (if check T_STRING t then
               thenP (parseString st) (\<lambda>sourceName st1.
               thenP (consume T_ARROW ''Expected -> in dependency definition'' st1) (\<lambda>_ st2.
               thenP (parseString st2) (\<lambda>targetName st3.
               thenP (match T_WHEN st3) (\<lambda>isWhen st4.
                 if isWhen then
                   thenP (parseIdentifier st4) (\<lambda>l st5.
                   thenP (parseOperator st5) (\<lambda>op st6.
                   thenP (parseValue st6) (\<lambda>r st7.
                   parseDependenciesLoop
                     (deps @
                        [\<lparr>sourceId = sourceName, targetId = targetName, dep_type = CONDITIONAL,
                          condition = Some \<lparr>leftOperand = l, operator = op, rightOperand = r,
                                             cond_metadata = None\<rparr>,
                          isDefault = None\<rparr>]) st7)))
                 else
                   thenP (match T_DEFAULT st4) (\<lambda>isDefaultEdge st5.
                   parseDependenciesLoop
                     (deps @
                        [if isDefaultEdge
                         then \<lparr>sourceId = sourceName, targetId = targetName,
                               dep_type = CONDITIONAL, condition = None, isDefault = Some True\<rparr>
                         else \<lparr>sourceId = sourceName, targetId = targetName,
                               dep_type = SEQUENTIAL, condition = None, isDefault = None\<rparr>])
                     st5)))))
             else if check T_COMMENT t then parseDependenciesLoop deps (advanced t ts st)
             else Inl (error t ''Expected dependency definition''))
          else Inr (deps, st))"
  by pat_completeness auto
termination
  by (relation "measure (\<lambda>(deps, st). length (remaining st))")
     (auto dest!: parseString_shorter consume_shorter noGrowthD[OF noGrowth_match]
        noGrowthD[OF noGrowth_parseIdentifier] noGrowthD[OF noGrowth_parseOperator]
        noGrowthD[OF noGrowth_parseValue])

declare parseDependenciesLoop.simps [simp del]

lemma noGrowth_parseDependenciesLoop: "noGrowth (parseDependenciesLoop deps st) st"
proof (induction deps st rule: parseDependenciesLoop.induct)
  case (1 deps st)
  show ?case
  proof (cases "remaining st")
    case Nil
    then show ?thesis by (subst parseDependenciesLoop.simps) simp
  next
    case (Cons t ts)
    have adv: "noGrowth r (advanced t ts st) \<Longrightarrow> noGrowth r st" for r :: "Dependency list result"
      using Cons by (rule noGrowth_advanced)
    note IH = "1.IH"[OF Cons]
    show ?thesis
      apply (subst parseDependenciesLoop.simps, simp only: Cons list.case)
      apply (intro noGrowth_leaves)
      apply ((intro noGrowth_thenP noGrowth_basic noGrowth_ifI IH, assumption+)
          | (rule adv, intro noGrowth_thenP noGrowth_basic IH, assumption+))+
      done
  qed
qed

definition parseDependencies :: "PState \<Rightarrow> Dependency list result" where
  "parseDependencies st =
     thenP (consume T_LEFT_BRACE ''Expected { after dependencies keyword'' st) (\<lambda>_ st1.
     thenP (parseDependenciesLoop [] st1) (\<lambda>deps st2.
     thenP (consume T_RIGHT_BRACE ''Expected } after dependencies section'' st2) (\<lambda>_ st3.
     Inr (deps, st3))))"

lemma noGrowth_parseDependencies: "noGrowth (parseDependencies st) st"
  unfolding parseDependencies_def
  by (intro noGrowth_thenP noGrowth_consume noGrowth_parseDependenciesLoop) simp

function parseWorkflowLoop :: "(nat \<Rightarrow> string) \<Rightarrow> Workflow \<Rightarrow> PState \<Rightarrow> Workflow result" where
  "parseWorkflowLoop genId workflow st =
     (case remaining st of
        [] \<Rightarrow> Inl TypeError
      | t # ts \<Rightarrow>
          if \<not> check T_RIGHT_BRACE t \<and> \<not> isAtEnd t then
            (if check T_DESCRIPTION t then
               thenP (parseString (advanced t ts st)) (\<lambda>d st1.
               parseWorkflowLoop genId (workflow\<lparr>wf_description := Some d\<rparr>) st1)
             else if check T_VERSION t then
               thenP (parseString (advanced t ts st)) (\<lambda>v st1.
               parseWorkflowLoop genId (workflow\<lparr>wf_version := Some v\<rparr>) st1)
             else if check T_TRACK t then
               thenP (parseTrack genId (advanced t ts st)) (\<lambda>track st1.
               parseWorkflowLoop genId (workflow\<lparr>tracks := tracks workflow @ [track]\<rparr>) st1)
             else if check T_START t then
               thenP (parseNode genId START (advanced t ts st)) (\<lambda>node st1.
               parseWorkflowLoop genId (workflow\<lparr>nodes := nodes workflow @ [node]\<rparr>) st1)
             else if check T_END t then
               thenP (parseNode genId END (advanced t ts st)) (\<lambda>node st1.
               parseWorkflowLoop genId (workflow\<lparr>nodes := nodes workflow @ [node]\<rparr>) st1)
             else if check T_TASK t then
               thenP (parseNode genId TASK (advanced t ts st)) (\<lambda>node st1.
               parseWorkflowLoop genId (workflow\<lparr>nodes := nodes workflow @ [node]\<rparr>) st1)
             else if check T_DECISION t then
               thenP (parseNode genId DECISION (advanced t ts st)) (\<lambda>node st1.
               parseWorkflowLoop genId (workflow\<lparr>nodes := nodes workflow @ [node]\<rparr>) st1)
             else if check T_SYNC t then
               thenP (parseNode genId SYNC_POINT (advanced t ts st)) (\<lambda>node st1.
               parseWorkflowLoop genId (workflow\<lparr>nodes := nodes workflow @ [node]\<rparr>) st1)
             else if check T_DEPENDENCIES t then
               thenP (parseDependencies (advanced t ts st)) (\<lambda>deps st1.
               parseWorkflowLoop genId (workflow\<lparr>dependencies := deps\<rparr>) st1)
             else if check T_COMMENT t then parseWorkflowLoop genId workflow (advanced t ts st)
             else Inl (error t ''Expected workflow element''))
          else Inr (workflow, st))"
  by pat_completeness auto
termination
  by (relation "measure (\<lambda>(genId, workflow, st). length (remaining st))")
     (auto dest!: parseString_shorter noGrowthD[OF noGrowth_parseTrack]
        noGrowthD[OF noGrowth_parseNode] noGrowthD[OF noGrowth_parseDependencies])

declare parseWorkflowLoop.simps [simp del]

definition parseWorkflow :: "(nat \<Rightarrow> string) \<Rightarrow> PState \<Rightarrow> Workflow result" where
  "parseWorkflow genId st =
     thenP (consume T_WORKFLOW ''Expected workflow keyword'' st) (\<lambda>_ st1.
     thenP (parseString st1) (\<lambda>name st2.
     thenP (consume T_LEFT_BRACE ''Expected { after workflow name'' st2) (\<lambda>_ st3.
     thenP (parseWorkflowLoop genId (plainWorkflow (genId (generated st3)) name [] [] [])
              (st3\<lparr>generated := Suc (generated st3)\<rparr>)) (\<lambda>workflow st4.
     thenP (consume T_RIGHT_BRACE ''Expected } after workflow definition'' st4) (\<lambda>_ st5.
     Inr (workflow, st5))))))"

definition parse :: "(nat \<Rightarrow> string) \<Rightarrow> string \<Rightarrow> Error + Workflow" where
  "parse genId source =
     (case tokenize source of
        Inl e \<Rightarrow> Inl e
      | Inr toks \<Rightarrow>
          (case parseWorkflow genId \<lparr>previousTok = None, remaining = toks, generated = 0\<rparr> of
             Inl e \<Rightarrow> Inl e
           | Inr (workflow, st) \<Rightarrow> Inr workflow))"


text \<open>
  The equations that evaluate the lexer and the parser on a given text.
\<close>

lemmas parser_defs = parse_def parseWorkflow_def parseDependencies_def parseNode_def parseTrack_def
  parseResources_def parseCondition_def parseOperator_def parseString_def parseNumber_def
  parseBoolean_def parseIdentifier_def consume_def match_def advance_def advanced_def check_def
  isAtEnd_def error_def errorAtPeek_def plainWorkflow_def plainNode_def nodeTypeString_def
  configOrNew_def conditionsOrNew_def operatorOf_def resourceTypeOf_def splitWhitespace_def
  sniffOperand_def isDecimalLiteral_def parseFloat_def digitsValue_def objSet_def isArrayIndex_def

lemmas parser_loops = parseWorkflowLoop.simps parseDependenciesLoop.simps parseNodeLoop.simps
  parseTrackLoop.simps parseResourcesLoop.simps parseValue.simps parseArray.simps
  parseArrayLoop.simps parseObject.simps parseObjectLoop.simps

section \<open>Properties of the lexer and the parser\<close>

text \<open>
  Claim C7, evaluated. In the text below the character \<open>#\<close> matches no lexical rule. It is
  preceded by fifteen characters of line 1, so it stands in column 16. The lexer stops at
  it and returns no tokens, and the error names line 1, column 15: inside a string literal
  the column counter is advanced for the characters between the quotes and once more
  after the literal, which leaves it one short of the two quotes.
\<close>

theorem tokenize_column_after_string:
  "tokenize (''workflow \"W\" { '' @ ''# }'') = Inl (UnexpectedCharacter (CHR ''#'') 1 15)
   \<and> length ''workflow \"W\" { '' = 15"
  by (simp add: lex_defs)

text \<open>
  Claim C1, evaluated. The text below defines no node and names two in a dependency.
  \<open>parse\<close> does not fail: it returns a workflow without nodes whose dependency has the
  names \<open>A\<close> and \<open>B\<close> as \<open>sourceId\<close> and \<open>targetId\<close>. No function of the parser replaces a
  name by an identifier.
\<close>

theorem parse_unresolved_names:
  "parse genId ''workflow \"W\" { dependencies { \"A\" -> \"B\" } }''
  = Inr (plainWorkflow (genId 0) ''W'' [] [plainDependency ''A'' ''B''] [])"
  by (simp add: lex_defs parser_defs parser_loops plainDependency_def)

section \<open>The double nearest to a decimal literal\<close>

text \<open>
  \<open>floorLog2\<close> is the position of the leading bit, \<open>binaryExponent N D\<close> the binary
  exponent of \<open>N / D\<close>, and \<open>roundHalfEven N D\<close> an integer at distance at most one half
  from \<open>N / D\<close>. So the result of \<open>toDouble\<close> is a multiple \<open>n * 2^k\<close> of the spacing \<open>2^k\<close>
  of the doubles around \<open>N / D\<close>, at most half a spacing away from \<open>N / D\<close>, or an infinity
  when this multiple is \<open>2^1024\<close> or more.
\<close>

lemma floorLog2_bounds:
  "0 < n \<Longrightarrow> 2 ^ floorLog2 n \<le> n \<and> n < 2 ^ Suc (floorLog2 n)"
proof (induction n rule: floorLog2.induct)
  case (1 n)
  show ?case
  proof (cases "n < 2")
    case True
    with 1(2) show ?thesis by (simp add: floorLog2.simps)
  next
    case False
    then have "0 < n div 2" by simp
    from 1(1)[OF False this] have "2 ^ floorLog2 (n div 2) \<le> n div 2"
      and "n div 2 < 2 ^ Suc (floorLog2 (n div 2))" by simp_all
    then have "2 * 2 ^ floorLog2 (n div 2) \<le> n" and "n < 2 * 2 ^ Suc (floorLog2 (n div 2))"
      by linarith+
    with False show ?thesis by (simp add: floorLog2.simps[of n])
  qed
qed

lemma roundHalfEven_nearest:
  assumes "0 < D"
  shows "2 * \<bar>int (roundHalfEven N D) * int D - int N\<bar> \<le> int D"
proof -
  have split: "int N = int (N div D) * int D + int (N mod D)"
    by (metis div_mult_mod_eq of_nat_add of_nat_mult)
  have "N mod D < D" using assms by simp
  then show ?thesis
    unfolding roundHalfEven_def Let_def using split
    by (auto simp: algebra_simps)
qed

lemma pow2_int:
  "(2::rat) powi e = (if 0 \<le> e then 2 ^ nat e else 1 / 2 ^ nat (- e))"
  by (simp add: power_int_def field_simps)

lemma binaryExponent_bounds:
  assumes "0 < N" "0 < D"
  shows "(2::rat) powi (binaryExponent N D) \<le> of_nat N / of_nat D
       \<and> of_nat N / of_nat D < (2::rat) powi (binaryExponent N D + 1)"
proof -
  define a where "a = floorLog2 N"
  define b where "b = floorLog2 D"
  define d where "d = int a - int b"
  let ?v = "of_nat N / of_nat D :: rat"
  have Dpos: "(0::rat) < of_nat D" using assms(2) by simp
  from floorLog2_bounds[OF assms(1)] have N: "2 ^ a \<le> N" "N < 2 ^ Suc a" by (simp_all add: a_def)
  from floorLog2_bounds[OF assms(2)] have D: "2 ^ b \<le> D" "D < 2 ^ Suc b" by (simp_all add: b_def)
  have Nr: "(2::rat) ^ a \<le> of_nat N" "(of_nat N :: rat) < 2 ^ Suc a"
    using N by (metis of_nat_le_iff of_nat_numeral of_nat_power, metis of_nat_less_iff of_nat_numeral of_nat_power)
  have Dr: "(2::rat) ^ b \<le> of_nat D" "(of_nat D :: rat) < 2 ^ Suc b"
    using D by (metis of_nat_le_iff of_nat_numeral of_nat_power, metis of_nat_less_iff of_nat_numeral of_nat_power)
  have pd: "(2::rat) powi d = 2 ^ a / 2 ^ b"
    by (simp add: d_def power_int_diff)
  have lower: "(2::rat) powi (d - 1) < ?v"
  proof -
    have "(2::rat) powi (d - 1) = 2 powi d / 2"
      by (simp add: power_int_diff)
    also have "\<dots> = 2 ^ a / 2 ^ Suc b"
      by (simp add: pd)
    also have "\<dots> < ?v"
      using Nr(1) Dr(2) Dpos by (intro frac_less2) auto
    finally show ?thesis .
  qed
  have upper: "?v < (2::rat) powi (d + 1)"
  proof -
    have "?v < 2 ^ Suc a / 2 ^ b"
      using Nr(2) Dr(1) Dpos by (intro frac_less) auto
    also have "\<dots> = (2::rat) powi d * 2"
      by (simp add: pd)
    also have "\<dots> = (2::rat) powi (d + 1)"
      by (simp add: power_int_add)
    finally show ?thesis .
  qed
  have test: "(if 0 \<le> d then D * 2 ^ nat d \<le> N else D \<le> N * 2 ^ nat (- d)) \<longleftrightarrow> (2::rat) powi d \<le> ?v"
  proof (cases "0 \<le> d")
    case True
    have "(2::rat) powi d \<le> ?v \<longleftrightarrow> of_nat D * 2 ^ nat d \<le> (of_nat N :: rat)"
      using Dpos True by (simp add: pow2_int field_simps)
    also have "\<dots> \<longleftrightarrow> D * 2 ^ nat d \<le> N"
      by (metis of_nat_le_iff of_nat_mult of_nat_numeral of_nat_power)
    finally show ?thesis using True by simp
  next
    case False
    have "(2::rat) powi d \<le> ?v \<longleftrightarrow> (of_nat D :: rat) \<le> of_nat N * 2 ^ nat (- d)"
      using Dpos False by (simp add: pow2_int field_simps)
    also have "\<dots> \<longleftrightarrow> D \<le> N * 2 ^ nat (- d)"
      by (metis of_nat_le_iff of_nat_mult of_nat_numeral of_nat_power)
    finally show ?thesis using False by simp
  qed
  have be: "binaryExponent N D =
      (if (if 0 \<le> d then D * 2 ^ nat d \<le> N else D \<le> N * 2 ^ nat (- d)) then d else d - 1)"
    unfolding binaryExponent_def Let_def a_def[symmetric] b_def[symmetric] d_def[symmetric] ..
  have e: "binaryExponent N D = (if (2::rat) powi d \<le> ?v then d else d - 1)"
    unfolding be test ..
  show ?thesis
  proof (cases "(2::rat) powi d \<le> ?v")
    case True
    with upper show ?thesis by (simp add: e)
  next
    case False
    with lower show ?thesis by (simp add: e)
  qed
qed

lemma toDouble_nearest:
  assumes "0 < N" "0 < D"
  shows "\<exists>k n. k = max (binaryExponent N D - 52) (- 1074)
     \<and> 2 * \<bar>of_nat n * 2 powi k - of_nat N / of_nat D\<bar> \<le> (2::rat) powi k
     \<and> toDouble negative N D =
         (if (2::rat) ^ 1024 \<le> of_nat n * 2 powi k
          then (if negative then NegInfinity else PosInfinity)
          else Finite (if negative then - (of_nat n * 2 powi k) else of_nat n * 2 powi k))"
proof -
  define k where "k = max (binaryExponent N D - 52) (- 1074)"
  define n where "n = (if 0 \<le> k then roundHalfEven N (D * 2 ^ nat k)
                       else roundHalfEven (N * 2 ^ nat (- k)) D)"
  let ?v = "of_nat N / of_nat D :: rat"
  let ?r = "of_nat n * (2::rat) powi k"
  have Dpos: "(0::rat) < of_nat D" using assms(2) by simp
  have r: "(if 0 \<le> k then of_nat (n * 2 ^ nat k) else of_nat n / 2 ^ nat (- k)) = ?r"
    by (simp add: pow2_int)
  have run: "toDouble negative N D =
      (if (2::rat) ^ 1024 \<le> ?r then (if negative then NegInfinity else PosInfinity)
       else Finite (if negative then - ?r else ?r))"
    using assms(1) unfolding toDouble_def Let_def k_def[symmetric] n_def[symmetric] r by simp
  have near: "2 * \<bar>?r - ?v\<bar> \<le> (2::rat) powi k"
  proof (cases "0 \<le> k")
    case True
    define P where "P = (2::nat) ^ nat k"
    have Ppos: "0 < P" by (simp add: P_def)
    have p: "(2::rat) powi k = of_nat P" using True by (simp add: pow2_int P_def)
    have n': "n = roundHalfEven N (D * P)" using True by (simp add: n_def P_def)
    from roundHalfEven_nearest[of "D * P" N] assms(2) Ppos
    have "2 * \<bar>int n * int (D * P) - int N\<bar> \<le> int (D * P)" by (simp add: n')
    then have "of_int (2 * \<bar>int n * int (D * P) - int N\<bar>) \<le> (of_int (int (D * P)) :: rat)"
      by (simp only: of_int_le_iff)
    then have h: "2 * \<bar>of_nat n * (of_nat D * of_nat P) - of_nat N\<bar> \<le> (of_nat D * of_nat P :: rat)"
      by simp
    have "?r - ?v = (of_nat n * (of_nat D * of_nat P) - of_nat N) / of_nat D"
      using Dpos by (simp add: p field_simps)
    then have "2 * \<bar>?r - ?v\<bar> = 2 * \<bar>of_nat n * (of_nat D * of_nat P) - of_nat N\<bar> / of_nat D"
      using Dpos by (simp add: abs_divide)
    also have "\<dots> \<le> (of_nat D * of_nat P) / of_nat D"
      by (rule divide_right_mono[OF h]) simp
    also have "\<dots> = (2::rat) powi k" using Dpos by (simp add: p)
    finally show ?thesis .
  next
    case False
    define P where "P = (2::nat) ^ nat (- k)"
    have Ppos: "(0::rat) < of_nat P" by (simp add: P_def)
    have p: "(2::rat) powi k = 1 / of_nat P" using False by (simp add: pow2_int P_def)
    have n': "n = roundHalfEven (N * P) D" using False by (simp add: n_def P_def)
    from roundHalfEven_nearest[OF assms(2), of "N * P"]
    have "2 * \<bar>int n * int D - int (N * P)\<bar> \<le> int D" by (simp add: n')
    then have "of_int (2 * \<bar>int n * int D - int (N * P)\<bar>) \<le> (of_int (int D) :: rat)"
      by (simp only: of_int_le_iff)
    then have h: "2 * \<bar>of_nat n * of_nat D - of_nat N * of_nat P\<bar> \<le> (of_nat D :: rat)"
      by simp
    have "?r - ?v = (of_nat n * of_nat D - of_nat N * of_nat P) / (of_nat D * of_nat P)"
      using Dpos Ppos by (simp add: p field_simps)
    then have "2 * \<bar>?r - ?v\<bar> = 2 * \<bar>of_nat n * of_nat D - of_nat N * of_nat P\<bar> / (of_nat D * of_nat P)"
      using Dpos Ppos by (simp add: abs_divide abs_mult)
    also have "\<dots> \<le> of_nat D / (of_nat D * of_nat P)"
      by (rule divide_right_mono[OF h]) simp
    also have "\<dots> = (2::rat) powi k" using Dpos by (simp add: p)
    finally show ?thesis .
  qed
  from k_def near run show ?thesis by blast
qed

text \<open>
  On digits with an optional point and digits, \<open>parseFloat\<close> is the rounding of their
  decimal value.
\<close>

lemma isDigit_other:
  "isDigit c \<Longrightarrow> \<not> isSpace c \<and> c \<noteq> CHR ''-'' \<and> c \<noteq> CHR ''+'' \<and> c \<noteq> CHR ''I'' \<and> c \<noteq> CHR ''.''"
  by (auto simp: isDigit_def isSpace_def)

lemma parseFloat_decimal:
  assumes "ds \<noteq> []" "list_all isDigit ds" "list_all isDigit fs"
  shows "parseFloat (ds @ (if fs = [] then [] else ''.'' @ fs))
           = toDouble False (digitsValue (ds @ fs)) (10 ^ length fs)"
proof -
  let ?s = "ds @ (if fs = [] then [] else ''.'' @ fs)"
  from assms(1) obtain c cs where ds: "ds = c # cs" by (cases ds) auto
  with assms(2) have c: "isDigit c" by simp
  note o = isDigit_other[OF c]
  have trimmed: "dropWhile isSpace ?s = ?s" using o by (simp add: ds)
  have negative: "(case ?s of c # _ \<Rightarrow> c = CHR ''-'' | [] \<Rightarrow> False) = False"
    using o by (simp add: ds)
  have unsigned: "(case ?s of c # cs \<Rightarrow> if c = CHR ''+'' \<or> c = CHR ''-'' then cs else ?s | [] \<Rightarrow> []) = ?s"
    using o by (simp add: ds)
  have inf: "take 8 ?s \<noteq> ''Infinity''" using o by (simp add: ds)
  have point: "\<not> isDigit (CHR ''.'')" by (simp add: isDigit_def)
  have whole: "takeWhile isDigit ?s = ds"
    using assms(2) point by (simp add: list_all_iff takeWhile_tail)
  have after: "dropWhile isDigit ?s = (if fs = [] then [] else ''.'' @ fs)"
    using assms(2) point by (simp add: list_all_iff dropWhile_append3)
  have frac: "takeWhile isDigit fs = fs" "dropWhile isDigit fs = []"
    using assms(3) by (simp_all add: list_all_iff)
  show ?thesis
    unfolding parseFloat_def trimmed negative unsigned Let_def whole after
    using inf assms(1) by (simp add: decimalExponent_def frac)
qed


section \<open>The condition of a decision node\<close>

















text \<open>
  The equations that evaluate \<open>parseFloat\<close> on a given text.
\<close>

lemmas number_defs = parseFloat_def decimalExponent_def toDouble_def binaryExponent_def
  roundHalfEven_def floorLog2.simps digitsValue_def isDigit_def isSpace_def Let_def

lemma parseFloat_examples:
  "parseFloat ''0.1'' = Finite (3602879701896397 / 36028797018963968)"
  "parseFloat ''1.2.3'' = Finite (5404319552844595 / 4503599627370496)"
  "parseFloat ''5.'' = Finite 5"
  "parseFloat ''72057594037927945'' = Finite 72057594037927952"
  "parseFloat ''-2.5e-1x'' = Finite (- (1 / 4))"
  "parseFloat ''x1'' = NaN"
  by (simp_all add: number_defs)






section \<open>Generator (DslGenerator)\<close>

text \<open>
  The generator builds the text by appending template strings.  A JavaScript condition
  \<open>if (s)\<close> on an optional string holds when the string is present and not empty
  (\<open>truthyString\<close>); \<open>x || y\<close> takes \<open>y\<close> under the same test.  The text of a number
  inside a template is given by the parameter \<open>numStr\<close>; no property below depends on it.
  \<open>numberText\<close> is the text of a property declared \<open>number\<close>.
  A line feed is written \<open>\<newline>\<close>.
\<close>

definition truthyString :: "string option \<Rightarrow> bool" where
  "truthyString s = (case s of None \<Rightarrow> False | Some v \<Rightarrow> v \<noteq> [])"

definition repeatSpace :: "nat \<Rightarrow> string" where
  "repeatSpace indent = replicate indent (CHR '' '')"

definition booleanString :: "bool \<Rightarrow> string" where
  "booleanString b = (if b then ''true'' else ''false'')"

definition numberText :: "(jsnumber \<Rightarrow> string) \<Rightarrow> numberOrNull \<Rightarrow> string" where
  "numberText numStr x = (case x of Number n \<Rightarrow> numStr n | Null \<Rightarrow> ''null'')"

fun jsTruthy :: "jsvalue \<Rightarrow> bool" where
  "jsTruthy JNull = False"
| "jsTruthy (JBool b) = b"
| "jsTruthy (JNum n) = (n \<noteq> Finite 0 \<and> n \<noteq> NaN)"
| "jsTruthy (JStr s) = (s \<noteq> [])"
| "jsTruthy (JArr xs) = True"
| "jsTruthy (JObj props) = True"

fun jsToString :: "(jsnumber \<Rightarrow> string) \<Rightarrow> jsvalue \<Rightarrow> string" where
  "jsToString numStr JNull = ''null''"
| "jsToString numStr (JBool b) = booleanString b"
| "jsToString numStr (JNum n) = numStr n"
| "jsToString numStr (JStr s) = s"
| "jsToString numStr (JArr xs) =
     join '','' (map (\<lambda>x. if x = JNull then [] else jsToString numStr x) xs)"
| "jsToString numStr (JObj props) = ''[object Object]''"

fun stringifyValue :: "(jsnumber \<Rightarrow> string) \<Rightarrow> jsvalue \<Rightarrow> string" where
  "stringifyValue numStr (JStr s) = ''\"'' @ s @ ''\"''"
| "stringifyValue numStr (JArr xs) =
     ''['' @ join '', '' (map (stringifyValue numStr) xs) @ '']''"
| "stringifyValue numStr (JObj props) =
     ''{\<newline>'' @
     concat (map (\<lambda>(k, v). ''    '' @ k @ '': '' @ stringifyValue numStr v @ ''\<newline>'') props) @
     ''  }''"
| "stringifyValue numStr v = jsToString numStr v"


definition operatorSymbol :: "ConditionOperator \<Rightarrow> string" where
  "operatorSymbol op =
     (case op of
        EQUALS \<Rightarrow> ''=='' | NOT_EQUALS \<Rightarrow> ''!='' | GREATER_THAN \<Rightarrow> ''>'' | LESS_THAN \<Rightarrow> ''<''
      | GREATER_THAN_OR_EQUALS \<Rightarrow> ''>='' | LESS_THAN_OR_EQUALS \<Rightarrow> ''<=''
      | CONTAINS \<Rightarrow> ''contains'' | NOT_CONTAINS \<Rightarrow> ''not_contains''
      | STARTS_WITH \<Rightarrow> ''starts_with'' | ENDS_WITH \<Rightarrow> ''ends_with'' | REGEX \<Rightarrow> ''regex'')"

definition generateConditionExpression :: "(jsnumber \<Rightarrow> string) \<Rightarrow> Condition \<Rightarrow> string" where
  "generateConditionExpression numStr c =
     leftOperand c @ '' '' @ operatorSymbol (operator c) @ '' '' @
     stringifyValue numStr (rightOperand c)"

definition generateTrack :: "Track \<Rightarrow> nat \<Rightarrow> string" where
  "generateTrack track indent =
     (let spaces = repeatSpace indent
      in spaces @ ''track \"'' @ track_name track @ ''\" {\<newline>'' @
         (if truthyString (track_description track)
          then spaces @ ''  description \"'' @ the (track_description track) @ ''\"\<newline>''
          else []) @
         spaces @ ''}\<newline>'')"

definition generateTaskProperties :: "(jsnumber \<Rightarrow> string) \<Rightarrow> WorkflowNode \<Rightarrow> nat \<Rightarrow> string" where
  "generateTaskProperties numStr node indent =
     (let spaces = repeatSpace indent
      in (if truthyString (taskType node)
          then spaces @ ''type \"'' @ the (taskType node) @ ''\"\<newline>'' else []) @
         (case parameters node of
            None \<Rightarrow> []
          | Some props \<Rightarrow>
              spaces @ ''parameters {\<newline>'' @
              concat (map (\<lambda>(key, v).
                 spaces @ ''  '' @ key @ '': '' @ stringifyValue numStr v @ ''\<newline>'') props) @
              spaces @ ''}\<newline>'') @
         (case timeout node of
            None \<Rightarrow> []
          | Some n \<Rightarrow> spaces @ ''timeout '' @ numberText numStr n @ ''\<newline>'') @
         (case retries node of
            None \<Rightarrow> []
          | Some n \<Rightarrow> spaces @ ''retries '' @ numberText numStr n @ ''\<newline>''))"

definition targetNameOf :: "(jsnumber \<Rightarrow> string) \<Rightarrow> Condition \<Rightarrow> string" where
  "targetNameOf numStr c =
     (case cond_metadata c of
        None \<Rightarrow> []
      | Some props \<Rightarrow>
          (case map_of props ''targetName'' of
             None \<Rightarrow> []
           | Some v \<Rightarrow> if jsTruthy v then jsToString numStr v else []))"

definition generateDecisionProperties :: "(jsnumber \<Rightarrow> string) \<Rightarrow> WorkflowNode \<Rightarrow> nat \<Rightarrow> string" where
  "generateDecisionProperties numStr node indent =
     (let spaces = repeatSpace indent
      in (case conditions node of
            None \<Rightarrow> []
          | Some cs \<Rightarrow>
              concat (map (\<lambda>c.
                 spaces @ ''condition \"'' @ generateConditionExpression numStr c @
                 ''\" then \"'' @ targetNameOf numStr c @ ''\"\<newline>'') cs)) @
         (if truthyString (defaultTargetId node)
          then spaces @ ''default \"'' @ the (defaultTargetId node) @ ''\"\<newline>'' else []))"

definition generateSyncPointProperties :: "(jsnumber \<Rightarrow> string) \<Rightarrow> WorkflowNode \<Rightarrow> nat \<Rightarrow> string" where
  "generateSyncPointProperties numStr node indent =
     (let spaces = repeatSpace indent
      in (case config node of
            None \<Rightarrow> []
          | Some c \<Rightarrow>
              (case waitForAll c of
                 None \<Rightarrow> []
               | Some b \<Rightarrow> spaces @ ''wait_for_all '' @ booleanString b @ ''\<newline>'') @
              (case cfg_timeout c of
                 None \<Rightarrow> []
               | Some n \<Rightarrow> spaces @ ''timeout '' @ numberText numStr n @ ''\<newline>'')))"

definition generateResourceRequirement ::
  "(jsnumber \<Rightarrow> string) \<Rightarrow> ResourceRequirement \<Rightarrow> nat \<Rightarrow> string" where
  "generateResourceRequirement numStr resource indent =
     (let spaces = repeatSpace indent;
          resourceName =
            (case resourceType resource of
               CPU \<Rightarrow> ''cpu'' | MEMORY \<Rightarrow> ''memory'' | GPU \<Rightarrow> ''gpu''
             | CUSTOM \<Rightarrow> (if truthyString (resourceId resource)
                           then the (resourceId resource) else ''custom''))
      in spaces @ resourceName @ '': '' @ numberText numStr (amount resource) @ ''\<newline>'')"

definition generateNode :: "(jsnumber \<Rightarrow> string) \<Rightarrow> WorkflowNode \<Rightarrow> nat \<Rightarrow> string" where
  "generateNode numStr node indent =
     (let spaces = repeatSpace indent
      in (case node_type node of
            START \<Rightarrow> spaces @ ''start \"'' @ node_name node @ ''\" {\<newline>''
          | END \<Rightarrow> spaces @ ''end \"'' @ node_name node @ ''\" {\<newline>''
          | TASK \<Rightarrow> spaces @ ''task \"'' @ node_name node @ ''\" {\<newline>''
          | DECISION \<Rightarrow> spaces @ ''decision \"'' @ node_name node @ ''\" {\<newline>''
          | SYNC_POINT \<Rightarrow> spaces @ ''sync \"'' @ node_name node @ ''\" {\<newline>'') @
         (if truthyString (node_description node)
          then spaces @ ''  description \"'' @ the (node_description node) @ ''\"\<newline>''
          else []) @
         (if truthyString (trackId node)
          then spaces @ ''  track \"'' @ the (trackId node) @ ''\"\<newline>'' else []) @
         (case node_type node of
            TASK \<Rightarrow> generateTaskProperties numStr node (indent + 2)
          | DECISION \<Rightarrow> generateDecisionProperties numStr node (indent + 2)
          | SYNC_POINT \<Rightarrow> generateSyncPointProperties numStr node (indent + 2)
          | _ \<Rightarrow> []) @
         (case resourceRequirements node of
            None \<Rightarrow> []
          | Some rs \<Rightarrow>
              if length rs > 0 then
                spaces @ ''  resources {\<newline>'' @
                concat (map (\<lambda>resource. generateResourceRequirement numStr resource (indent + 4)) rs) @
                spaces @ ''  }\<newline>''
              else []) @
         spaces @ ''}\<newline>'')"

definition nodeMapGet :: "WorkflowNode list \<Rightarrow> string \<Rightarrow> string option" where
  "nodeMapGet ns i = map_of (rev (map (\<lambda>node. (node_id node, node_name node)) ns)) i"

definition nameOrId :: "WorkflowNode list \<Rightarrow> string \<Rightarrow> string" where
  "nameOrId ns i = (if truthyString (nodeMapGet ns i) then the (nodeMapGet ns i) else i)"

definition generateDependencies ::
  "(jsnumber \<Rightarrow> string) \<Rightarrow> Dependency list \<Rightarrow> WorkflowNode list \<Rightarrow> nat \<Rightarrow> string" where
  "generateDependencies numStr deps ns indent =
     (let spaces = repeatSpace indent
      in spaces @ ''dependencies {\<newline>'' @
         concat (map (\<lambda>dep.
            spaces @ ''  \"'' @ nameOrId ns (sourceId dep) @ ''\" -> \"'' @
            nameOrId ns (targetId dep) @ ''\"'' @
            (if dep_type dep = CONDITIONAL \<and> condition dep \<noteq> None
             then '' when \"'' @ generateConditionExpression numStr (the (condition dep)) @ ''\"''
             else if dep_type dep = CONDITIONAL \<and> condition dep = None then '' default''
             else []) @
            ''\<newline>'') deps) @
         spaces @ ''}\<newline>'')"

definition generate :: "(jsnumber \<Rightarrow> string) \<Rightarrow> Workflow \<Rightarrow> string" where
  "generate numStr workflow =
     ''workflow \"'' @ wf_name workflow @ ''\" {\<newline>'' @
     (if truthyString (wf_description workflow)
      then ''  description \"'' @ the (wf_description workflow) @ ''\"\<newline>'' else []) @
     (if truthyString (wf_version workflow)
      then ''  version \"'' @ the (wf_version workflow) @ ''\"\<newline>'' else []) @
     ''\<newline>'' @
     (if length (tracks workflow) > 0 then
        ''  // Define tracks for parallel execution\<newline>'' @
        concat (map (\<lambda>track. generateTrack track 2 @ ''\<newline>'') (tracks workflow))
      else []) @
     (if length (nodes workflow) > 0 then
        ''  // Define nodes\<newline>'' @
        concat (map (\<lambda>node. generateNode numStr node 2 @ ''\<newline>'') (nodes workflow))
      else []) @
     (if length (dependencies workflow) > 0 then
        ''  // Define dependencies\<newline>'' @
        generateDependencies numStr (dependencies workflow) (nodes workflow) 2
      else []) @
     ''}\<newline>''"

lemmas generator_defs = generate_def generateDependencies_def nameOrId_def nodeMapGet_def
  generateNode_def generateResourceRequirement_def generateSyncPointProperties_def
  generateDecisionProperties_def targetNameOf_def generateTaskProperties_def generateTrack_def
  generateConditionExpression_def operatorSymbol_def truthyString_def repeatSpace_def
  booleanString_def numberText_def


section \<open>JSON serialisation (JsonSerializer)\<close>

text \<open>
  \<open>serialize\<close> builds a \<open>WorkflowSerialized\<close> object, whose \<open>nodes\<close> and \<open>tracks\<close> are
  objects filled by \<open>acc[x.id] = x\<close> from the empty object literal, and prints it with
  \<open>JSON.stringify\<close>; \<open>deserialize\<close> reads it with \<open>JSON.parse\<close> and takes
  \<open>Object.values\<close> of both.  The JSON text is represented by the structure it denotes.
  Printing and reading back keep the own properties of every object, in their order, and
  keep every string, boolean and finite number; a number that is not finite is printed as
  \<open>null\<close>.  The functions \<open>json...\<close> give the structure that the text of a value denotes.
  The assignment is \<open>objSet\<close>, so the properties are ordered as JavaScript orders them
  and the key \<open>__proto__\<close> adds no property.
\<close>

fun jsonValue :: "jsvalue \<Rightarrow> jsvalue" where
  "jsonValue (JNum n) = (case n of Finite q \<Rightarrow> JNum n | _ \<Rightarrow> JNull)"
| "jsonValue (JArr xs) = JArr (map jsonValue xs)"
| "jsonValue (JObj props) = JObj (map (\<lambda>(k, v). (k, jsonValue v)) props)"
| "jsonValue v = v"

definition jsonProps :: "(string \<times> jsvalue) list \<Rightarrow> (string \<times> jsvalue) list" where
  "jsonProps props = map (\<lambda>(k, v). (k, jsonValue v)) props"

definition jsonNumber :: "numberOrNull \<Rightarrow> numberOrNull" where
  "jsonNumber x = (case x of Number (Finite q) \<Rightarrow> x | _ \<Rightarrow> Null)"

definition jsonResource :: "ResourceRequirement \<Rightarrow> ResourceRequirement" where
  "jsonResource r = r\<lparr>amount := jsonNumber (amount r)\<rparr>"

definition jsonCondition :: "Condition \<Rightarrow> Condition" where
  "jsonCondition c =
     c\<lparr>rightOperand := jsonValue (rightOperand c),
       cond_metadata := map_option jsonProps (cond_metadata c)\<rparr>"

definition jsonConfig :: "SyncPointConfig \<Rightarrow> SyncPointConfig" where
  "jsonConfig c = c\<lparr>cfg_timeout := map_option jsonNumber (cfg_timeout c)\<rparr>"

definition jsonNode :: "WorkflowNode \<Rightarrow> WorkflowNode" where
  "jsonNode node =
     node\<lparr>resourceRequirements := map_option (map jsonResource) (resourceRequirements node),
          parameters := map_option jsonProps (parameters node),
          timeout := map_option jsonNumber (timeout node),
          retries := map_option jsonNumber (retries node),
          conditions := map_option (map jsonCondition) (conditions node),
          config := map_option jsonConfig (config node)\<rparr>"

definition jsonDependency :: "Dependency \<Rightarrow> Dependency" where
  "jsonDependency dep = dep\<lparr>condition := map_option jsonCondition (condition dep)\<rparr>"

record WorkflowSerialized =
  ser_id :: string
  ser_name :: string
  ser_description :: "string option"
  ser_version :: "string option"
  ser_nodes :: "(string \<times> WorkflowNode) list"
  ser_dependencies :: "Dependency list"
  ser_tracks :: "(string \<times> Track) list"
  ser_metadata :: "(string \<times> jsvalue) list option"

definition jsonSerialized :: "WorkflowSerialized \<Rightarrow> WorkflowSerialized" where
  "jsonSerialized serialized =
     serialized\<lparr>ser_nodes := map (\<lambda>(k, node). (k, jsonNode node)) (ser_nodes serialized),
                ser_dependencies := map jsonDependency (ser_dependencies serialized),
                ser_metadata := map_option jsonProps (ser_metadata serialized)\<rparr>"

definition objectValues :: "(string \<times> 'v) list \<Rightarrow> 'v list" where
  "objectValues props = map snd props"

definition serialize :: "Workflow \<Rightarrow> WorkflowSerialized" where
  "serialize workflow =
     jsonSerialized
       \<lparr>ser_id = wf_id workflow,
        ser_name = wf_name workflow,
        ser_description = wf_description workflow,
        ser_version = wf_version workflow,
        ser_nodes = foldl (\<lambda>acc node. objSet (node_id node) node acc) [] (nodes workflow),
        ser_dependencies = dependencies workflow,
        ser_tracks = foldl (\<lambda>acc track. objSet (track_id track) track acc) [] (tracks workflow),
        ser_metadata = wf_metadata workflow\<rparr>"

definition deserialize :: "WorkflowSerialized \<Rightarrow> Workflow" where
  "deserialize serialized =
     \<lparr>wf_id = ser_id serialized,
      wf_name = ser_name serialized,
      wf_description = ser_description serialized,
      wf_version = ser_version serialized,
      nodes = objectValues (ser_nodes serialized),
      dependencies = ser_dependencies serialized,
      tracks = objectValues (ser_tracks serialized),
      wf_metadata = ser_metadata serialized\<rparr>"


section \<open>Properties of the generator\<close>

text \<open>
  Claim C5: the generator writes the names, never the internal ids, for the track
  of a node and for the default target of a decision node.

  \<open>generateNode\<close> writes \<open>node.trackId\<close> after \<open>track\<close> and \<open>generateDecisionProperties\<close>
  writes \<open>node.defaultTargetId\<close> after \<open>default\<close>; only \<open>generateDependencies\<close> looks the
  names up.  For the workflow below, whose track \<open>track-1\<close> is named \<open>Ingest\<close> and whose
  node \<open>node-3\<close> is named \<open>Done\<close>, the text holds \<open>track "track-1"\<close> and
  \<open>default "node-3"\<close>, while the dependencies section of the same text holds the names.
\<close>

theorem generate_emits_ids:
  "generate numStr
     (plainWorkflow ''workflow-1'' ''Pipeline''
        [(plainNode ''node-1'' START ''Begin'')\<lparr>trackId := Some ''track-1''\<rparr>,
         (plainNode ''node-2'' DECISION ''Check'')\<lparr>defaultTargetId := Some ''node-3''\<rparr>,
         plainNode ''node-3'' END ''Done'']
        [plainDependency ''node-1'' ''node-2'', plainDependency ''node-2'' ''node-3'']
        [\<lparr>track_id = ''track-1'', track_name = ''Ingest'', track_description = None,
          nodeIds = [''node-1'']\<rparr>])
   = ''workflow \"Pipeline\" {\<newline>'' @
     ''\<newline>'' @
     ''  // Define tracks for parallel execution\<newline>'' @
     ''  track \"Ingest\" {\<newline>'' @
     ''  }\<newline>'' @
     ''\<newline>'' @
     ''  // Define nodes\<newline>'' @
     ''  start \"Begin\" {\<newline>'' @
     ''    track \"track-1\"\<newline>'' @
     ''  }\<newline>'' @
     ''\<newline>'' @
     ''  decision \"Check\" {\<newline>'' @
     ''    default \"node-3\"\<newline>'' @
     ''  }\<newline>'' @
     ''\<newline>'' @
     ''  end \"Done\" {\<newline>'' @
     ''  }\<newline>'' @
     ''\<newline>'' @
     ''  // Define dependencies\<newline>'' @
     ''  dependencies {\<newline>'' @
     ''    \"Begin\" -> \"Check\"\<newline>'' @
     ''    \"Check\" -> \"Done\"\<newline>'' @
     ''  }\<newline>'' @
     ''}\<newline>''"
  by (simp add: generator_defs plainWorkflow_def plainNode_def plainDependency_def Let_def eval_nat_numeral)

text \<open>
  Claim C2: parsing the generated text of a workflow gives the workflow back, up to the
  fresh ids.

  A conditional dependency is written \<open>when "<left> <operator> <right>"\<close>, with the
  expression between double quotes, as in the example of grammar.ts.  After \<open>when\<close> the
  parser calls \<open>parseIdentifier\<close>, which rejects the string token.  So the text generated
  for the workflow below, with the nodes \<open>A\<close> and \<open>B\<close> and one dependency under the
  condition \<open>score == true\<close>, is not parsed at all.
\<close>

theorem roundtrip_when_rejected:
  "generate numStr
     (plainWorkflow ''workflow-1'' ''W''
        [plainNode ''n1'' START ''A'', plainNode ''n2'' END ''B'']
        [\<lparr>sourceId = ''n1'', targetId = ''n2'', dep_type = CONDITIONAL,
          condition = Some \<lparr>leftOperand = ''score'', operator = EQUALS,
                             rightOperand = JBool True, cond_metadata = None\<rparr>,
          isDefault = None\<rparr>] [])
   = ''workflow \"W\" {\<newline>'' @
     ''\<newline>'' @
     ''  // Define nodes\<newline>'' @
     ''  start \"A\" {\<newline>'' @
     ''  }\<newline>'' @
     ''\<newline>'' @
     ''  end \"B\" {\<newline>'' @
     ''  }\<newline>'' @
     ''\<newline>'' @
     ''  // Define dependencies\<newline>'' @
     ''  dependencies {\<newline>'' @
     ''    \"A\" -> \"B\" when \"score == true\"\<newline>'' @
     ''  }\<newline>'' @
     ''}\<newline>''
   \<and> parse genId (generate numStr
     (plainWorkflow ''workflow-1'' ''W''
        [plainNode ''n1'' START ''A'', plainNode ''n2'' END ''B'']
        [\<lparr>sourceId = ''n1'', targetId = ''n2'', dep_type = CONDITIONAL,
          condition = Some \<lparr>leftOperand = ''score'', operator = EQUALS,
                             rightOperand = JBool True, cond_metadata = None\<rparr>,
          isDefault = None\<rparr>] []))
   = Inl (ParseError ''Expected identifier'' 12 17)"
proof -
  have generated: "generate numStr
     (plainWorkflow ''workflow-1'' ''W''
        [plainNode ''n1'' START ''A'', plainNode ''n2'' END ''B'']
        [\<lparr>sourceId = ''n1'', targetId = ''n2'', dep_type = CONDITIONAL,
          condition = Some \<lparr>leftOperand = ''score'', operator = EQUALS,
                             rightOperand = JBool True, cond_metadata = None\<rparr>,
          isDefault = None\<rparr>] [])
   = ''workflow \"W\" {\<newline>'' @
     ''\<newline>'' @
     ''  // Define nodes\<newline>'' @
     ''  start \"A\" {\<newline>'' @
     ''  }\<newline>'' @
     ''\<newline>'' @
     ''  end \"B\" {\<newline>'' @
     ''  }\<newline>'' @
     ''\<newline>'' @
     ''  // Define dependencies\<newline>'' @
     ''  dependencies {\<newline>'' @
     ''    \"A\" -> \"B\" when \"score == true\"\<newline>'' @
     ''  }\<newline>'' @
     ''}\<newline>''"
    by (simp add: generator_defs plainWorkflow_def plainNode_def Let_def eval_nat_numeral)
  show ?thesis
    unfolding generated by (simp add: lex_defs parser_defs parser_loops Let_def)
qed


section \<open>Properties of the JSON serialisation\<close>

text \<open>
  Ids that are pairwise distinct and different from \<open>__proto__\<close> each add one property,
  so the round trip keeps the scalar fields and the tracks, and gives back the nodes, the
  dependencies and the metadata as their JSON text denotes them: unchanged when their
  numbers are finite.
\<close>

lemma set_insertIndexed: "set (insertIndexed k v props) = insert (k, v) (set props)"
  by (induction props) (auto split: if_splits)

lemma set_objSet_fresh:
  "k \<noteq> ''__proto__'' \<Longrightarrow> k \<notin> fst ` set props \<Longrightarrow> set (objSet k v props) = insert (k, v) (set props)"
  by (auto simp: objSet_def set_insertIndexed)

lemma set_foldl_objSet:
  "distinct (map key xs) \<Longrightarrow> ''__proto__'' \<notin> key ` set xs \<Longrightarrow> key ` set xs \<inter> fst ` set acc = {}
     \<Longrightarrow> set (foldl (\<lambda>acc x. objSet (key x) x acc) acc xs) = set acc \<union> (\<lambda>x. (key x, x)) ` set xs"
proof (induction xs arbitrary: acc)
  case Nil
  then show ?case by simp
next
  case (Cons x xs)
  have fresh: "key x \<notin> fst ` set acc" using Cons.prems(3) by auto
  have nonproto: "key x \<noteq> ''__proto__''" using Cons.prems(2) by auto
  have step: "set (objSet (key x) x acc) = insert (key x, x) (set acc)"
    using set_objSet_fresh[OF nonproto fresh] .
  have disj: "key ` set xs \<inter> fst ` set (objSet (key x) x acc) = {}"
    using Cons.prems(1,3) unfolding step by auto
  from Cons.IH[OF _ _ disj] Cons.prems(1,2) show ?case
    by (simp add: step)
qed

lemma json_roundtrip:
  assumes "distinct (map node_id (nodes w))" "distinct (map track_id (tracks w))"
    and "''__proto__'' \<notin> set (map node_id (nodes w))"
    and "''__proto__'' \<notin> set (map track_id (tracks w))"
  shows "wf_id (deserialize (serialize w)) = wf_id w
       \<and> wf_name (deserialize (serialize w)) = wf_name w
       \<and> wf_description (deserialize (serialize w)) = wf_description w
       \<and> wf_version (deserialize (serialize w)) = wf_version w
       \<and> dependencies (deserialize (serialize w)) = map jsonDependency (dependencies w)
       \<and> wf_metadata (deserialize (serialize w)) = map_option jsonProps (wf_metadata w)
       \<and> set (nodes (deserialize (serialize w))) = jsonNode ` set (nodes w)
       \<and> set (tracks (deserialize (serialize w))) = set (tracks w)"
proof -
  have n: "set (foldl (\<lambda>acc x. objSet (node_id x) x acc) [] (nodes w))
      = (\<lambda>x. (node_id x, x)) ` set (nodes w)"
    using set_foldl_objSet[of node_id "nodes w" "[]"] assms(1,3) by simp
  have t: "set (foldl (\<lambda>acc x. objSet (track_id x) x acc) [] (tracks w))
      = (\<lambda>x. (track_id x, x)) ` set (tracks w)"
    using set_foldl_objSet[of track_id "tracks w" "[]"] assms(2,4) by simp
  show ?thesis
    by (simp add: deserialize_def serialize_def jsonSerialized_def objectValues_def n t
        image_image comp_def)
qed

text \<open>
  Claim C10: when the node ids are pairwise distinct and the track ids are pairwise
  distinct, \<open>deserialize (serialize w)\<close> has the same nodes and tracks as \<open>w\<close>, as sets.

  The ids below are distinct, but the node whose id is \<open>__proto__\<close> is not in the result:
  \<open>acc["__proto__"] = node\<close> sets the prototype of \<open>acc\<close> and adds no property, and
  \<open>JSON.stringify\<close> prints own properties only.  The dependency that starts at this node
  is kept.
\<close>

theorem json_roundtrip_loses_proto:
  "nodes (deserialize (serialize
      (plainWorkflow ''w'' ''W''
        [plainNode ''__proto__'' START ''Begin'', plainNode ''node-2'' END ''Done'']
        [plainDependency ''__proto__'' ''node-2''] [])))
   = [plainNode ''node-2'' END ''Done'']"
  by (simp add: deserialize_def serialize_def jsonSerialized_def jsonNode_def jsonDependency_def
      objectValues_def objSet_def plainWorkflow_def plainNode_def plainDependency_def
      isArrayIndex_def isDigit_def)

end
